theory Spec2Isabelle
  imports Main "HOL-Library.Sublist"
begin

section \<open>Python values\<close>

text \<open>
  A Python \<open>str\<close> is a sequence of Unicode code points, modelled as a list of naturals;
  \<open>bytes\<close> are 8-bit characters. The distinction matters where the code encodes a
  \<open>str\<close> (\<open>encode("latin1")\<close> raises on a code point above 255) and where it splits
  lines (\<open>splitlines\<close> also breaks at U+2028 and U+2029).
\<close>

type_synonym pystr = "nat list"
type_synonym bytes = "string"

text \<open>A string literal of the source.\<close>

definition str :: "string \<Rightarrow> pystr" where
  "str s = map of_char s"

datatype py_error = UnicodeEncodeError | UnicodeDecodeError | ValueError

text \<open>\<open>bytes.decode("latin1")\<close> never fails; \<open>str.encode("latin1")\<close> raises
  \<open>UnicodeEncodeError\<close> on a code point outside the range 0..255.\<close>

definition decode_latin1 :: "bytes \<Rightarrow> pystr" where
  "decode_latin1 b = map of_char b"

definition encode_latin1 :: "pystr \<Rightarrow> py_error + bytes" where
  "encode_latin1 s =
     (if list_all (\<lambda>c. c < 256) s then Inr (map char_of s) else Inl UnicodeEncodeError)"

text \<open>\<open>str.lower()\<close> on one code point. Exact below 256 (the upper-case letters there are
  A..Z and U+00C0..U+00DE without the multiplication sign U+00D7), which is all that
  a Latin-1 decoding yields.\<close>

definition lower_cp :: "nat \<Rightarrow> nat" where
  "lower_cp c =
     (if (65 \<le> c \<and> c \<le> 90) \<or> (192 \<le> c \<and> c \<le> 222 \<and> c \<noteq> 215) then c + 32 else c)"

definition lower :: "pystr \<Rightarrow> pystr" where
  "lower s = map lower_cp s"

text \<open>Truth value of an \<open>Optional[str]\<close>: \<open>None\<close> and the empty string are falsy.\<close>

definition truthy :: "pystr option \<Rightarrow> bool" where
  "truthy v = (case v of None \<Rightarrow> False | Some s \<Rightarrow> s \<noteq> [])"

text \<open>\<open>s.startswith(p)\<close>.\<close>

definition startswith :: "pystr \<Rightarrow> pystr \<Rightarrow> bool" where
  "startswith s p = prefix p s"

text \<open>\<open>s.replace(old, new, 1)\<close>: the leftmost occurrence of \<open>old\<close> is replaced; an empty
  \<open>old\<close> matches at position 0.\<close>

fun replace_first :: "pystr \<Rightarrow> pystr \<Rightarrow> pystr \<Rightarrow> pystr" where
  "replace_first old new [] = (if old = [] then new else [])"
| "replace_first old new (c # cs) =
     (if prefix old (c # cs) then new @ drop (length old) (c # cs)
      else c # replace_first old new cs)"


section \<open>The ASGI gateway: \<open>utils/asgi_auth.py\<close>\<close>

text \<open>
  The ASGI connection scope is a dictionary. The keys the middleware reads or writes are
  fields (absent keys are \<open>None\<close>); every other key lives in the record's extension, so
  that "forwarded unchanged" speaks about the whole dictionary.
\<close>

record scope =
  scope_type :: "pystr option"
  scope_path :: "pystr option"
  scope_raw_path :: "bytes option"
  scope_headers :: "(bytes \<times> bytes) list option"

text \<open>The attributes \<open>__init__\<close> stores on the middleware object.\<close>

record ApiKeyAuthMiddleware =
  header_name :: pystr
  expected_key :: pystr
  sse_path :: pystr
  rewrite_to :: "pystr option"

text \<open>The messages passed to \<open>send\<close>, and the three ways \<open>__call__\<close> can end: it answered
  by itself and returned (the wrapped app is not called), it awaited the wrapped app on a
  scope, or an exception left it.\<close>

datatype asgi_message =
  ResponseStart int "(bytes \<times> bytes) list"
| ResponseBody bytes bool

datatype 'a outcome =
  Responded "asgi_message list"
| Forwarded "'a scope_scheme"
| Raised py_error

text \<open>The dictionary comprehension over the header pairs: keys decoded and lower-cased,
  a later pair overwriting an earlier one of the same key.\<close>

definition headers_dict :: "(bytes \<times> bytes) list \<Rightarrow> (pystr \<rightharpoonup> pystr)" where
  "headers_dict hs = map_of (rev (map (\<lambda>(k, v). (lower (decode_latin1 k), decode_latin1 v)) hs))"

definition unauthorized_response :: "asgi_message list" where
  "unauthorized_response =
     [ResponseStart 401 [(''content-type'', ''text/plain; charset=utf-8'')],
      ResponseBody ''Unauthorized: missing or invalid x-api-key'' False]"

text \<open>\<open>ApiKeyAuthMiddleware.__call__\<close>.\<close>

definition call :: "ApiKeyAuthMiddleware \<Rightarrow> 'a scope_scheme \<Rightarrow> 'a outcome" where
  "call self scope =
     (if scope_type scope = Some (str ''http'') then
        (let path = (case scope_path scope of Some p \<Rightarrow> p | None \<Rightarrow> []) in
         if startswith path (sse_path self) \<or>
            (case rewrite_to self of Some r \<Rightarrow> r \<noteq> [] \<and> startswith path r | None \<Rightarrow> False)
         then
           (let headers = headers_dict (case scope_headers scope of Some hs \<Rightarrow> hs | None \<Rightarrow> []);
                api_key = headers (header_name self) in
            if api_key \<noteq> Some (expected_key self) then Responded unauthorized_response
            else
              (case rewrite_to self of
                 Some r \<Rightarrow>
                   if r \<noteq> [] \<and> startswith path (sse_path self) then
                     (let new_path = replace_first (sse_path self) r path in
                      case encode_latin1 new_path of
                        Inl e \<Rightarrow> Raised e
                      | Inr raw \<Rightarrow>
                          Forwarded (scope\<lparr>scope_path := Some new_path, scope_raw_path := Some raw\<rparr>))
                   else Forwarded scope
               | None \<Rightarrow> Forwarded scope))
         else Forwarded scope)
      else Forwarded scope)"

text \<open>The gateway as \<open>mcp_server.py\<close> installs it, for a given secret.\<close>

definition mcp_gateway :: "pystr \<Rightarrow> ApiKeyAuthMiddleware" where
  "mcp_gateway key =
     \<lparr>header_name = str ''x-api-key'', expected_key = key,
      sse_path = str ''/mcp'', rewrite_to = Some (str ''/sse'')\<rparr>"

text \<open>An HTTP scope with a path and headers, and nothing else.\<close>

definition http_scope :: "pystr \<Rightarrow> (bytes \<times> bytes) list \<Rightarrow> scope" where
  "http_scope p hs =
     \<lparr>scope_type = Some (str ''http''), scope_path = Some p,
      scope_raw_path = None, scope_headers = Some hs\<rparr>"


section \<open>The OAuth client: \<open>utils/oauth_auth.py\<close>\<close>

text \<open>\<open>sep.join(xs)\<close> and \<open>a or b\<close> on \<open>Optional[str]\<close> values.\<close>

fun join :: "pystr \<Rightarrow> pystr list \<Rightarrow> pystr" where
  "join sep [] = []"
| "join sep [x] = x"
| "join sep (x # y # ys) = x @ sep @ join sep (y # ys)"

definition py_or :: "pystr option \<Rightarrow> pystr option \<Rightarrow> pystr option" where
  "py_or a b = (if truthy a then a else b)"

text \<open>
  A parsed JSON object as far as the client reads it: a dictionary from keys to values that
  are \<open>null\<close> (\<open>None\<close>) or a string. \<open>d k = None\<close> says the key is absent. Values of other
  JSON types are outside the model. \<open>d.get(k)\<close> and \<open>d.get(k, default)\<close>:
\<close>

type_synonym json_dict = "pystr \<rightharpoonup> pystr option"

definition dict_get :: "json_dict \<Rightarrow> pystr \<Rightarrow> pystr option" where
  "dict_get d k = (case d k of None \<Rightarrow> None | Some v \<Rightarrow> v)"

definition dict_get_default :: "json_dict \<Rightarrow> pystr \<Rightarrow> pystr option \<Rightarrow> pystr option" where
  "dict_get_default d k dflt = (case d k of None \<Rightarrow> dflt | Some v \<Rightarrow> v)"

text \<open>What a JSON parser makes of a body or a file: it raises (\<open>NotJson\<close>), it returns a value
  that is not an object (\<open>JsonOther\<close>: a list, a string, a number, \<open>null\<close>; every method
  call on it raises \<open>AttributeError\<close>), or it returns an object.\<close>

datatype json_body = NotJson | JsonOther | JsonObject json_dict

text \<open>The outside world of \<open>requests.post\<close>: the form posted, and either a transport-level
  exception or a response with its status and body.\<close>

record http_request =
  url :: pystr
  data :: "(pystr \<times> pystr option) list"

datatype http_outcome = TransportError | Response int json_body

type_synonym network = "http_request \<Rightarrow> http_outcome"

text \<open>\<open>response.raise_for_status()\<close> raises for the statuses 400..599.\<close>

definition raise_for_status :: "int \<Rightarrow> bool" where
  "raise_for_status status = (400 \<le> status \<and> status < 600)"

record DidaOAuthClient =
  client_id :: "pystr option"
  client_secret :: "pystr option"
  redirect_uri :: "pystr option"
  access_token :: "pystr option"
  refresh_token :: "pystr option"

definition AUTH_URL :: pystr where
  "AUTH_URL = str ''https://dida365.com/oauth/authorize''"

definition TOKEN_URL :: pystr where
  "TOKEN_URL = str ''https://dida365.com/oauth/token''"

text \<open>\<open>__init__\<close>, given the values the environment holds for \<open>DIDA_CLIENT_ID\<close>,
  \<open>DIDA_CLIENT_SECRET\<close> and \<open>DIDA_REDIRECT_URI\<close>.\<close>

definition init_client ::
  "pystr option \<Rightarrow> pystr option \<Rightarrow> pystr option \<Rightarrow>
   pystr option \<Rightarrow> pystr option \<Rightarrow> pystr option \<Rightarrow> DidaOAuthClient" where
  "init_client env_id env_secret env_uri cid csecret ruri =
     \<lparr>client_id = py_or cid env_id, client_secret = py_or csecret env_secret,
      redirect_uri = (case env_uri of Some u \<Rightarrow> Some u | None \<Rightarrow> ruri),
      access_token = None, refresh_token = None\<rparr>"

text \<open>An f-string field \<open>{v}\<close>: \<open>None\<close> prints as the word \<open>None\<close>.\<close>

definition fmt :: "pystr option \<Rightarrow> pystr" where
  "fmt v = (case v of None \<Rightarrow> str ''None'' | Some s \<Rightarrow> s)"

definition get_authorization_url :: "DidaOAuthClient \<Rightarrow> pystr \<Rightarrow> pystr" where
  "get_authorization_url self scope =
     (let params =
            [(str ''client_id'', fmt (client_id self)),
             (str ''scope'', scope),
             (str ''state'', str ''random_state''),
             (str ''redirect_uri'', fmt (redirect_uri self)),
             (str ''response_type'', str ''code'')];
          query_string = join (str ''&'') (map (\<lambda>(k, v). k @ str ''='' @ v) params)
      in AUTH_URL @ str ''?'' @ query_string)"

definition exchange_request :: "DidaOAuthClient \<Rightarrow> pystr \<Rightarrow> http_request" where
  "exchange_request self authorization_code =
     \<lparr>url = TOKEN_URL,
      data = [(str ''client_id'', client_id self),
              (str ''client_secret'', client_secret self),
              (str ''code'', Some authorization_code),
              (str ''grant_type'', Some (str ''authorization_code'')),
              (str ''redirect_uri'', redirect_uri self)]\<rparr>"

text \<open>\<open>exchange_token\<close>: the result, the session afterwards, and the HTTP calls issued.
  Every exception is caught and turns into \<open>False\<close>; the two token fields are assigned
  before the presence of the access token is tested.\<close>

definition exchange_token ::
  "network \<Rightarrow> DidaOAuthClient \<Rightarrow> pystr \<Rightarrow> bool \<times> DidaOAuthClient \<times> http_request list" where
  "exchange_token post self authorization_code =
     (let payload = exchange_request self authorization_code in
      case post payload of
        TransportError \<Rightarrow> (False, self, [payload])
      | Response status body \<Rightarrow>
          if raise_for_status status then (False, self, [payload])
          else
            (case body of
               NotJson \<Rightarrow> (False, self, [payload])
             | JsonOther \<Rightarrow> (False, self, [payload])
             | JsonObject token_data \<Rightarrow>
                 (let self1 = self\<lparr>access_token := dict_get token_data (str ''access_token'')\<rparr>;
                      self2 = self1\<lparr>refresh_token := dict_get token_data (str ''refresh_token'')\<rparr>;
                      self3 =
                        (if \<not> truthy (refresh_token self2)
                         then self2\<lparr>refresh_token :=
                                 py_or (dict_get token_data (str ''refreshToken''))
                                       (dict_get token_data (str ''refresh_token''))\<rparr>
                         else self2)
                  in (truthy (access_token self3), self3, [payload]))))"

definition refresh_request :: "DidaOAuthClient \<Rightarrow> http_request" where
  "refresh_request self =
     \<lparr>url = TOKEN_URL,
      data = [(str ''client_id'', client_id self),
              (str ''client_secret'', client_secret self),
              (str ''refresh_token'', refresh_token self),
              (str ''grant_type'', Some (str ''refresh_token''))]\<rparr>"

definition refresh_access_token ::
  "network \<Rightarrow> DidaOAuthClient \<Rightarrow> bool \<times> DidaOAuthClient \<times> http_request list" where
  "refresh_access_token post self =
     (if \<not> truthy (refresh_token self) then (False, self, [])
      else
        (let payload = refresh_request self in
         case post payload of
           TransportError \<Rightarrow> (False, self, [payload])
         | Response status body \<Rightarrow>
             if raise_for_status status then (False, self, [payload])
             else
               (case body of
                  NotJson \<Rightarrow> (False, self, [payload])
                | JsonOther \<Rightarrow> (False, self, [payload])
                | JsonObject token_data \<Rightarrow>
                    (let self1 = self\<lparr>access_token := dict_get token_data (str ''access_token'')\<rparr>;
                         new_refresh_token = dict_get token_data (str ''refresh_token'');
                         self2 =
                           (if truthy new_refresh_token
                            then self1\<lparr>refresh_token := new_refresh_token\<rparr>
                            else self1)
                     in (True, self2, [payload])))))"

text \<open>
  The files of the configuration directory, by path, as \<open>json.load\<close> sees them; a path
  that is not in the map does not exist. \<open>save_tokens\<close> writes the five fields as one JSON
  object; the flag says whether the file could be opened for writing.
\<close>

type_synonym files = "pystr \<rightharpoonup> json_body"

definition config_of :: "DidaOAuthClient \<Rightarrow> json_dict" where
  "config_of self =
     [str ''client_id'' \<mapsto> client_id self,
      str ''client_secret'' \<mapsto> client_secret self,
      str ''redirect_uri'' \<mapsto> redirect_uri self,
      str ''access_token'' \<mapsto> access_token self,
      str ''refresh_token'' \<mapsto> refresh_token self]"

definition save_tokens :: "DidaOAuthClient \<Rightarrow> files \<Rightarrow> pystr \<Rightarrow> bool \<Rightarrow> bool \<times> files" where
  "save_tokens self fs config_path writable =
     (if \<not> truthy (access_token self) then (False, fs)
      else if writable then (True, fs(config_path \<mapsto> JsonObject (config_of self)))
      else (False, fs))"

definition load_tokens :: "DidaOAuthClient \<Rightarrow> files \<Rightarrow> pystr \<Rightarrow> bool \<times> DidaOAuthClient" where
  "load_tokens self fs config_path =
     (case fs config_path of
        None \<Rightarrow> (False, self)
      | Some NotJson \<Rightarrow> (False, self)
      | Some JsonOther \<Rightarrow> (False, self)
      | Some (JsonObject config) \<Rightarrow>
          (let self1 = self\<lparr>client_id := dict_get_default config (str ''client_id'') (client_id self)\<rparr>;
               self2 = self1\<lparr>client_secret :=
                         dict_get_default config (str ''client_secret'') (client_secret self1)\<rparr>;
               self3 = self2\<lparr>redirect_uri :=
                         dict_get_default config (str ''redirect_uri'') (redirect_uri self2)\<rparr>;
               self4 = self3\<lparr>access_token := dict_get config (str ''access_token'')\<rparr>;
               self5 = self4\<lparr>refresh_token := dict_get config (str ''refresh_token'')\<rparr>
           in (truthy (access_token self5), self5)))"

definition get_headers :: "DidaOAuthClient \<Rightarrow> py_error + (pystr \<times> pystr) list" where
  "get_headers self =
     (case access_token self of
        None \<Rightarrow> Inl ValueError
      | Some tok \<Rightarrow>
          if tok = [] then Inl ValueError
          else Inr [(str ''Authorization'', str ''Bearer '' @ tok),
                    (str ''Content-Type'', str ''application/json'')])"


text \<open>A session as \<open>__init__\<close> leaves it, with nothing taken from the environment.\<close>

definition fresh_client :: DidaOAuthClient where
  "fresh_client =
     init_client None None None (Some (str ''id'')) (Some (str ''secret''))
       (Some (str ''http://localhost:38000/callback''))"


subsection \<open>The callback listener\<close>

text \<open>
  One connection to the listener, as \<open>server.handle_request()\<close> of the standard library
  treats it around \<open>do_GET\<close>: a connection that sends no request line is closed without a
  response (\<open>Silent\<close>); a request that the library's parser refuses is answered by the
  library with an error status, 400, 414, 431 or 505 (\<open>Rejected\<close>); a request that parses
  has a method and a target. \<open>OAuthCallbackHandler\<close> defines \<open>do_GET\<close> only, so the library
  answers every other method with 501. The server speaks HTTP/1.0: one request per
  connection.

  \<open>do_GET\<close> sees the target through \<open>parse_qs(urlparse(self.path).query)\<close>, a library call:
  the parameter \<open>parse_query\<close>. It raises \<open>ValueError\<close> on some targets (\<open>//[\<close>), and
  otherwise maps a parameter name to its values, of which there is at least one (the
  first value, and the further ones). An exception that leaves \<open>do_GET\<close> is caught by the
  server, which closes the connection without a response. The class attribute
  \<open>OAuthCallbackHandler.authorization_code\<close> is the state; the pages sent are constants.
\<close>

type_synonym query_params = "pystr \<rightharpoonup> pystr \<times> pystr list"

type_synonym query_parser = "pystr \<Rightarrow> py_error + query_params"

datatype request = Silent | Rejected int | Request pystr pystr

datatype page = SuccessPage | ErrorPage | LibraryErrorPage

definition do_GET ::
  "query_parser \<Rightarrow> pystr \<Rightarrow> pystr option \<Rightarrow> (py_error + int \<times> page) \<times> pystr option" where
  "do_GET parse_query path authorization_code =
     (case parse_query path of
        Inl e \<Rightarrow> (Inl e, authorization_code)
      | Inr params \<Rightarrow>
          (case params (str ''code'') of
             Some (v, vs) \<Rightarrow> (Inr (200, SuccessPage), Some v)
           | None \<Rightarrow> (Inr (400, ErrorPage), authorization_code)))"

text \<open>\<open>server.handle_request()\<close> on one connection: the response sent, if any, and the
  attribute afterwards.\<close>

definition handle_request ::
  "query_parser \<Rightarrow> request \<Rightarrow> pystr option \<Rightarrow> (int \<times> page) option \<times> pystr option" where
  "handle_request parse_query req authorization_code =
     (case req of
        Silent \<Rightarrow> (None, authorization_code)
      | Rejected status \<Rightarrow> (Some (status, LibraryErrorPage), authorization_code)
      | Request command path \<Rightarrow>
          if command = str ''GET'' then
            (case do_GET parse_query path authorization_code of
               (Inl e, code) \<Rightarrow> (None, code)
             | (Inr response, code) \<Rightarrow> (Some response, code))
          else (Some (501, LibraryErrorPage), authorization_code))"

text \<open>The loop of \<open>run_server\<close>, \<open>while authorization_code is None: server.handle_request()\<close>,
  over the connections that arrive before the caller stops waiting, in the order the
  single-threaded server accepts them: the responses, and the attribute at the end.\<close>

fun run_server ::
  "query_parser \<Rightarrow> request list \<Rightarrow> pystr option \<Rightarrow> (int \<times> page) option list \<times> pystr option" where
  "run_server parse_query [] authorization_code = ([], authorization_code)"
| "run_server parse_query (req # rest) authorization_code =
     (if authorization_code = None then
        (case handle_request parse_query req authorization_code of
           (response, code) \<Rightarrow>
             (case run_server parse_query rest code of
                (responses, final) \<Rightarrow> (response # responses, final)))
      else ([], authorization_code))"

text \<open>\<open>start_callback_server\<close> resets the attribute, runs the loop and returns the attribute:
  the code handed to the caller, \<open>None\<close> when the wait ends without one.\<close>

definition start_callback_server ::
  "query_parser \<Rightarrow> request list \<Rightarrow> pystr option \<Rightarrow> (int \<times> page) option list \<times> pystr option" where
  "start_callback_server parse_query requests authorization_code =
     run_server parse_query requests None"

definition authorize ::
  "query_parser \<Rightarrow> request list \<Rightarrow> network \<Rightarrow> DidaOAuthClient \<Rightarrow> pystr option \<Rightarrow>
   bool \<times> DidaOAuthClient \<times> http_request list" where
  "authorize parse_query requests post self authorization_code =
     (case snd (start_callback_server parse_query requests authorization_code) of
        None \<Rightarrow> (False, self, [])
      | Some code \<Rightarrow> if code = [] then (False, self, []) else exchange_token post self code)"



subsection \<open>Reading a query back\<close>

text \<open>
  "Standard URL query decoding", for the round trip of the authorization URL: the query
  of a URL (what \<open>urlparse(url).query\<close> gives for an absolute URL: tab, CR and LF are
  dropped, the fragment after the first \<open>#\<close> is cut off, the query starts after the first
  \<open>?\<close>), split at \<open>&\<close>, each field split at its first \<open>=\<close>, fields without a value
  dropped, \<open>+\<close> read as a space and percent escapes decoded, as \<open>parse_qsl\<close> does.
  An escaped byte below 128 is that character; a field with an escaped byte from 128 on
  (part of a UTF-8 sequence) is outside this model, and the result is \<open>None\<close>.
\<close>

definition url_query :: "pystr \<Rightarrow> pystr" where
  "url_query u =
     (let u1 = filter (\<lambda>c. c \<notin> set [9, 10, 13]) u;
          u2 = takeWhile (\<lambda>c. c \<noteq> 35) u1
      in drop 1 (dropWhile (\<lambda>c. c \<noteq> 63) u2))"

fun split_at :: "nat \<Rightarrow> pystr \<Rightarrow> pystr list" where
  "split_at sep [] = [[]]"
| "split_at sep (c # cs) =
     (if c = sep then [] # split_at sep cs
      else (case split_at sep cs of [] \<Rightarrow> [[c]] | l # ls \<Rightarrow> (c # l) # ls))"

definition hexval :: "nat \<Rightarrow> nat option" where
  "hexval c =
     (if 48 \<le> c \<and> c \<le> 57 then Some (c - 48)
      else if 65 \<le> c \<and> c \<le> 70 then Some (c - 55)
      else if 97 \<le> c \<and> c \<le> 102 then Some (c - 87)
      else None)"

fun unquote :: "pystr \<Rightarrow> pystr option" where
  "unquote [] = Some []"
| "unquote (c # cs) =
     (if c = 37 then
        (case cs of
           h1 # h2 # rest \<Rightarrow>
             (case (hexval h1, hexval h2) of
                (Some a, Some b) \<Rightarrow>
                  if 16 * a + b < 128 then map_option ((#) (16 * a + b)) (unquote rest) else None
              | _ \<Rightarrow> map_option ((#) c) (unquote cs))
         | _ \<Rightarrow> map_option ((#) c) (unquote cs))
      else map_option ((#) c) (unquote cs))"

definition plus_to_space :: "pystr \<Rightarrow> pystr" where
  "plus_to_space s = map (\<lambda>c. if c = 43 then 32 else c) s"

definition parse_pair :: "pystr \<Rightarrow> (pystr \<times> pystr) list option" where
  "parse_pair name_value =
     (if 61 \<notin> set name_value then Some []
      else
        (let name = takeWhile (\<lambda>c. c \<noteq> 61) name_value;
             val = drop 1 (dropWhile (\<lambda>c. c \<noteq> 61) name_value)
         in if val = [] then Some []
            else
              (case (unquote (plus_to_space name), unquote (plus_to_space val)) of
                 (Some n, Some v) \<Rightarrow> Some [(n, v)]
               | _ \<Rightarrow> None)))"

definition parse_qsl :: "pystr \<Rightarrow> (pystr \<times> pystr) list option" where
  "parse_qsl qs = map_option concat (those (map parse_pair (split_at 38 qs)))"

text \<open>A parameter value that needs no encoding to survive that decoding: not empty, and
  free of tab, LF, CR, \<open>#\<close>, \<open>%\<close>, \<open>&\<close> and \<open>+\<close>.\<close>

definition query_safe :: "pystr \<Rightarrow> bool" where
  "query_safe v = (v \<noteq> [] \<and> list_all (\<lambda>c. c \<notin> set [9, 10, 13, 35, 37, 38, 43]) v)"


section \<open>The token file of the script: \<open>scripts/oauth_authenticate.py\<close>\<close>

text \<open>The line boundaries of \<open>str.splitlines\<close>: LF, VT, FF, CR, FS, GS, RS, NEL, U+2028 and
  U+2029; CR LF counts once; a text that ends at a boundary has no empty last line.\<close>

definition is_linebreak :: "nat \<Rightarrow> bool" where
  "is_linebreak c = (c \<in> set [10, 11, 12, 13, 28, 29, 30, 133, 8232, 8233])"

fun splitlines_from :: "pystr \<Rightarrow> pystr \<Rightarrow> pystr list" where
  "splitlines_from cur [] = (if cur = [] then [] else [cur])"
| "splitlines_from cur (c # cs) =
     (if c = 13 then
        (case cs of
           [] \<Rightarrow> [cur]
         | d # ds \<Rightarrow> if d = 10 then cur # splitlines_from [] ds else cur # splitlines_from [] cs)
      else if is_linebreak c then cur # splitlines_from [] cs
      else splitlines_from (cur @ [c]) cs)"

definition splitlines :: "pystr \<Rightarrow> pystr list" where
  "splitlines s = splitlines_from [] s"

text \<open>Reading a file in text mode translates CR LF and a lone CR to LF; writing on a POSIX
  system leaves the text as it is.\<close>

fun universal_newlines :: "pystr \<Rightarrow> pystr" where
  "universal_newlines [] = []"
| "universal_newlines (c # cs) =
     (if c = 13 then
        (case cs of
           [] \<Rightarrow> [10]
         | d # ds \<Rightarrow> if d = 10 then 10 # universal_newlines ds else 10 # universal_newlines cs)
      else c # universal_newlines cs)"

text \<open>
  The \<open>.env\<close> file as \<open>open(env_path, encoding="utf-8")\<close> finds it: missing, bytes that are
  not UTF-8 (reading them raises \<open>UnicodeDecodeError\<close>), or a text, which is what decoding
  gave and so holds no surrogate. A \<open>str\<close> can be written when none of its code points
  is a surrogate (U+D800 to U+DFFF); the range of a code point ends at U+10FFFF. The file
  system is taken to permit the reading and the writing.
\<close>

datatype env_file = Missing | Undecodable | Text pystr

definition is_scalar :: "nat \<Rightarrow> bool" where
  "is_scalar c = (c < 55296 \<or> (57343 < c \<and> c < 1114112))"

definition utf8_encodable :: "pystr \<Rightarrow> bool" where
  "utf8_encodable s = list_all is_scalar s"

text \<open>The lines of a file that can be read, and the first step of \<open>write_env_tokens\<close>: no
  lines when the file does not exist, an exception when it cannot be decoded.\<close>

definition file_lines :: "env_file \<Rightarrow> pystr list" where
  "file_lines file =
     (case file of Text text \<Rightarrow> splitlines (universal_newlines text) | _ \<Rightarrow> [])"

definition read_lines :: "env_file \<Rightarrow> py_error + pystr list" where
  "read_lines file =
     (case file of
        Missing \<Rightarrow> Inr []
      | Undecodable \<Rightarrow> Inl UnicodeDecodeError
      | Text text \<Rightarrow> Inr (splitlines (universal_newlines text)))"

definition endswith :: "pystr \<Rightarrow> pystr \<Rightarrow> bool" where
  "endswith s p = suffix p s"

definition upsert :: "pystr \<Rightarrow> pystr option \<Rightarrow> pystr list \<Rightarrow> pystr list" where
  "upsert key val lines =
     (let lines1 = filter (\<lambda>ln. \<not> startswith ln (key @ str ''='')) lines in
      case val of None \<Rightarrow> lines1 | Some v \<Rightarrow> lines1 @ [key @ str ''='' @ v])"

definition content_endswith_newline :: "pystr list \<Rightarrow> bool" where
  "content_endswith_newline lines = (if lines = [] then False else endswith (last lines) [10])"

text \<open>\<open>write_env_tokens\<close>: the exception that leaves it, if any, and the file afterwards.
  An exception while reading leaves the file as it is. \<open>open(env_path, "w")\<close> empties the
  file before \<open>f.write(content)\<close> encodes the content, so a content that cannot be encoded
  leaves an empty file behind.\<close>

definition write_env_tokens ::
  "env_file \<Rightarrow> pystr option \<Rightarrow> pystr option \<Rightarrow> py_error option \<times> env_file" where
  "write_env_tokens file access_tok refresh_tok =
     (case read_lines file of
        Inl e \<Rightarrow> (Some e, file)
      | Inr lines0 \<Rightarrow>
          (let lines1 = upsert (str ''DIDA_ACCESS_TOKEN'') access_tok lines0;
               lines2 = upsert (str ''DIDA_REFRESH_TOKEN'')
                          (Some (case refresh_tok of None \<Rightarrow> [] | Some r \<Rightarrow> r)) lines1;
               content = join [10] lines2 @ (if \<not> content_endswith_newline lines2 then [10] else [])
           in if utf8_encodable content then (None, Text content)
              else (Some UnicodeEncodeError, Text [])))"


text \<open>Notions for stating what the writer guarantees: a file that is missing or valid
  UTF-8, a string without a line boundary, the lines that belong to neither key, and the
  two lines the writer appends.\<close>

definition valid_utf8 :: "env_file \<Rightarrow> bool" where
  "valid_utf8 file =
     (case file of Missing \<Rightarrow> True | Undecodable \<Rightarrow> False | Text text \<Rightarrow> utf8_encodable text)"

definition no_linebreak :: "pystr \<Rightarrow> bool" where
  "no_linebreak s = list_all (\<lambda>c. \<not> is_linebreak c) s"

definition unrelated_lines :: "pystr list \<Rightarrow> pystr list" where
  "unrelated_lines lines =
     filter (\<lambda>ln. \<not> startswith ln (str ''DIDA_REFRESH_TOKEN=''))
       (filter (\<lambda>ln. \<not> startswith ln (str ''DIDA_ACCESS_TOKEN='')) lines)"

definition access_line :: "pystr \<Rightarrow> pystr" where
  "access_line a = str ''DIDA_ACCESS_TOKEN='' @ a"

definition refresh_line :: "pystr option \<Rightarrow> pystr" where
  "refresh_line r = str ''DIDA_REFRESH_TOKEN='' @ (case r of None \<Rightarrow> [] | Some x \<Rightarrow> x)"


section \<open>Sessions of operations on a client\<close>

text \<open>
  The operations on a client, each with what its environment answers: the callback
  requests that arrive, the outcome of the HTTP call, whether the file can be written. \<open>WriteEnvTokens\<close> is the script's call
  \<open>write_env_tokens(path, client.access_token, client.refresh_token)\<close>. What a session
  does to the outside is recorded as events: the HTTP calls issued with their outcomes,
  the headers \<open>get_headers\<close> handed out, the object \<open>save_tokens\<close> wrote, and the tokens given
  to the \<open>.env\<close> writer. The text of a \<open>.env\<close> file is never a JSON document, so for
  \<open>load_tokens\<close> the path holds \<open>NotJson\<close> afterwards.
\<close>

datatype operation =
  Authorize query_parser "request list" http_outcome
| ExchangeToken pystr http_outcome
| RefreshAccessToken http_outcome
| SaveTokens pystr bool
| LoadTokens pystr
| GetHeaders
| WriteEnvTokens pystr

datatype event =
  Posted http_request http_outcome
| Emitted "(pystr \<times> pystr) list"
| Saved pystr json_dict
| EnvWritten pystr "pystr option" "pystr option"

record world =
  session :: DidaOAuthClient
  stored :: files
  events :: "event list"

definition step :: "world \<Rightarrow> operation \<Rightarrow> world" where
  "step w op =
     (case op of
        Authorize parse_query requests outcome \<Rightarrow>
          (case authorize parse_query requests (\<lambda>req. outcome) (session w) None of
             (ok, self', calls) \<Rightarrow>
               w\<lparr>session := self', events := events w @ map (\<lambda>req. Posted req outcome) calls\<rparr>)
      | ExchangeToken code outcome \<Rightarrow>
          (case exchange_token (\<lambda>req. outcome) (session w) code of
             (ok, self', calls) \<Rightarrow>
               w\<lparr>session := self', events := events w @ map (\<lambda>req. Posted req outcome) calls\<rparr>)
      | RefreshAccessToken outcome \<Rightarrow>
          (case refresh_access_token (\<lambda>req. outcome) (session w) of
             (ok, self', calls) \<Rightarrow>
               w\<lparr>session := self', events := events w @ map (\<lambda>req. Posted req outcome) calls\<rparr>)
      | SaveTokens path writable \<Rightarrow>
          (case save_tokens (session w) (stored w) path writable of
             (ok, fs) \<Rightarrow>
               w\<lparr>stored := fs,
                 events := events w @ (if ok then [Saved path (config_of (session w))] else [])\<rparr>)
      | LoadTokens path \<Rightarrow>
          w\<lparr>session := snd (load_tokens (session w) (stored w) path)\<rparr>
      | GetHeaders \<Rightarrow>
          (case get_headers (session w) of
             Inl e \<Rightarrow> w
           | Inr hs \<Rightarrow> w\<lparr>events := events w @ [Emitted hs]\<rparr>)
      | WriteEnvTokens path \<Rightarrow>
          w\<lparr>stored := (stored w)(path \<mapsto> NotJson),
            events := events w @
              [EnvWritten path (access_token (session w)) (refresh_token (session w))]\<rparr>)"

definition run :: "world \<Rightarrow> operation list \<Rightarrow> world" where
  "run w ops = foldl step w ops"

definition start :: "DidaOAuthClient \<Rightarrow> files \<Rightarrow> world" where
  "start self fs = \<lparr>session = self, stored = fs, events = []\<rparr>"

text \<open>An event issues the token \<open>t\<close> when it is an HTTP call answered without an error
  status by a JSON object whose \<open>access_token\<close> is the non-empty \<open>t\<close>. An event carries a
  token when it hands it out in the \<open>Authorization\<close> header or writes it to a file.\<close>

definition issues :: "event \<Rightarrow> pystr \<Rightarrow> bool" where
  "issues e t =
     (case e of
        Posted req (Response status (JsonObject body)) \<Rightarrow>
          \<not> raise_for_status status \<and> t \<noteq> [] \<and> body (str ''access_token'') = Some (Some t)
      | _ \<Rightarrow> False)"

definition carried :: "event \<Rightarrow> pystr option" where
  "carried e =
     (case e of
        Posted req outcome \<Rightarrow> None
      | Emitted hs \<Rightarrow>
          (case map_of hs (str ''Authorization'') of
             None \<Rightarrow> None
           | Some v \<Rightarrow> if startswith v (str ''Bearer '') then Some (drop 7 v) else None)
      | Saved path d \<Rightarrow>
          (if truthy (dict_get d (str ''access_token''))
           then dict_get d (str ''access_token'') else None)
      | EnvWritten path a r \<Rightarrow> (if truthy a then a else None))"

text \<open>Token provenance of an event list: every token carried was issued by an earlier
  event, or is one of the tokens \<open>trusted\<close> from outside the session.\<close>

definition known :: "(pystr \<Rightarrow> bool) \<Rightarrow> event list \<Rightarrow> pystr \<Rightarrow> bool" where
  "known trusted before t = (trusted t \<or> list_ex (\<lambda>e. issues e t) before)"

definition vouched :: "(pystr \<Rightarrow> bool) \<Rightarrow> event list \<Rightarrow> event \<Rightarrow> bool" where
  "vouched trusted before e =
     (case carried e of None \<Rightarrow> True | Some t \<Rightarrow> known trusted before t)"

fun provenance :: "(pystr \<Rightarrow> bool) \<Rightarrow> event list \<Rightarrow> event list \<Rightarrow> bool" where
  "provenance trusted before [] = True"
| "provenance trusted before (e # es) =
     (vouched trusted before e \<and> provenance trusted (before @ [e]) es)"

text \<open>The access tokens that the stored configuration files hold.\<close>

definition preloaded :: "files \<Rightarrow> pystr \<Rightarrow> bool" where
  "preloaded fs t = (\<exists>path d. fs path = Some (JsonObject d) \<and> d (str ''access_token'') = Some (Some t))"

text \<open>The invariant of a session: its events have token provenance, and the access token
  of the session and those of the stored configuration files are known.\<close>

definition sound :: "(pystr \<Rightarrow> bool) \<Rightarrow> world \<Rightarrow> bool" where
  "sound trusted w =
     (provenance trusted [] (events w)
      \<and> (\<forall>t. access_token (session w) = Some t \<and> t \<noteq> [] \<longrightarrow> known trusted (events w) t)
      \<and> (\<forall>path d t. stored w path = Some (JsonObject d)
            \<and> d (str ''access_token'') = Some (Some t) \<and> t \<noteq> []
            \<longrightarrow> known trusted (events w) t))"


section \<open>The bearer check of the JSON-RPC endpoint: \<open>http_server.py\<close>\<close>

text \<open>The module reads the secret once: an unset or empty \<open>MCP_API_KEY\<close> becomes \<open>"123"\<close>.\<close>

definition module_API_KEY :: "pystr option \<Rightarrow> pystr option" where
  "module_API_KEY env = (if \<not> truthy env then Some (str ''123'') else env)"

text \<open>\<open>request.headers.get(key, default)\<close> of the web framework, over the header pairs of
  the ASGI scope (names in lower case): the key is lower-cased, the first header of that
  name wins, values are decoded as Latin-1.\<close>

definition headers_get :: "(bytes \<times> bytes) list \<Rightarrow> pystr \<Rightarrow> pystr \<Rightarrow> pystr" where
  "headers_get hs key dflt =
     (case map_of (map (\<lambda>(k, v). (decode_latin1 k, decode_latin1 v)) hs) (lower key) of
        None \<Rightarrow> dflt
      | Some v \<Rightarrow> v)"

text \<open>\<open>str.isspace\<close> on one code point, and \<open>str.strip()\<close>.\<close>

definition isspace :: "nat \<Rightarrow> bool" where
  "isspace c =
     (c \<in> set [9, 10, 11, 12, 13, 28, 29, 30, 31, 32, 133, 160, 5760, 8192, 8193, 8194, 8195,
               8196, 8197, 8198, 8199, 8200, 8201, 8202, 8232, 8233, 8239, 8287, 12288])"

definition strip :: "pystr \<Rightarrow> pystr" where
  "strip s = rev (dropWhile isspace (rev (dropWhile isspace s)))"

text \<open>\<open>s.replace(old, new)\<close>: every occurrence, left to right, without overlap; an empty
  \<open>old\<close> matches before every character and at the end.\<close>

function replace_nonempty :: "pystr \<Rightarrow> pystr \<Rightarrow> pystr \<Rightarrow> pystr" where
  "replace_nonempty old new [] = []"
| "replace_nonempty old new (c # cs) =
     (if old \<noteq> [] \<and> prefix old (c # cs)
      then new @ replace_nonempty old new (drop (length old) (c # cs))
      else c # replace_nonempty old new cs)"
  by pat_completeness auto
termination
  by (relation "measure (\<lambda>(old, new, s). length s)") (auto simp: neq_Nil_conv)

definition replace_all :: "pystr \<Rightarrow> pystr \<Rightarrow> pystr \<Rightarrow> pystr" where
  "replace_all old new s =
     (if old = [] then new @ concat (map (\<lambda>c. c # new) s) else replace_nonempty old new s)"

definition verify_api_key :: "pystr option \<Rightarrow> (bytes \<times> bytes) list \<Rightarrow> bool" where
  "verify_api_key API_KEY hs =
     (if \<not> truthy API_KEY then True
      else
        (let auth_header = headers_get hs (str ''Authorization'') [];
             api_key_header = headers_get hs (str ''X-API-Key'') [];
             x_api_key_header = headers_get hs (str ''x-api-key'') [];
             token =
               (if startswith auth_header (str ''Bearer '')
                then Some (strip (replace_all (str ''Bearer '') [] auth_header))
                else if api_key_header \<noteq> [] then Some (strip api_key_header)
                else if x_api_key_header \<noteq> [] then Some (strip x_api_key_header)
                else None)
         in if \<not> truthy token then False else token = API_KEY))"

text \<open>The handler of \<open>POST /mcp\<close>: either the 401 response with its status, JSON-RPC error
  code and message, or whatever the JSON-RPC dispatch (the parameter) makes of the body.\<close>

datatype 'r mcp_response = JSONResponse int int pystr | Dispatched 'r

definition mcp_endpoint ::
  "pystr option \<Rightarrow> ('b \<Rightarrow> 'r) \<Rightarrow> (bytes \<times> bytes) list \<Rightarrow> 'b \<Rightarrow> 'r mcp_response" where
  "mcp_endpoint API_KEY dispatch hs body =
     (if truthy API_KEY \<and> \<not> verify_api_key API_KEY hs
      then JSONResponse 401 (- 32001) (str ''Unauthorized: Invalid or missing API key'')
      else Dispatched (dispatch body))"


section \<open>Properties of the gateway\<close>

lemma replace_first_prefix:
  "prefix old s \<Longrightarrow> replace_first old new s = new @ drop (length old) s"
  by (cases s) auto

lemma startswith_literal:
  "startswith (c # cs) (d # ds) = (c = d \<and> startswith cs ds)"
  "startswith s [] = True"
  "startswith [] (d # ds) = False"
  by (auto simp: startswith_def)

text \<open>A request under the external path that does not present the secret is answered
  with 401 by the middleware itself; the wrapped app is not awaited.\<close>

lemma gateway_rejects:
  assumes "scope_type scope = Some (str ''http'')"
    and "scope_path scope = Some p"
    and "startswith p (sse_path self)"
    and "headers_dict (case scope_headers scope of Some hs \<Rightarrow> hs | None \<Rightarrow> []) (header_name self)
           \<noteq> Some (expected_key self)"
  shows "call self scope = Responded unauthorized_response"
  using assms by (simp add: call_def Let_def)

lemma unauthorized_response_shape:
  "unauthorized_response = [ResponseStart st hdrs, ResponseBody body mb] \<Longrightarrow>
     st = 401 \<and> sublist ''Unauthorized'' body"
  by (auto simp: unauthorized_response_def intro!: prefix_imp_sublist)

text \<open>With the secret presented and a rewrite target configured, the wrapped app sees the
  external prefix replaced, provided the new path has Latin-1 code points only.\<close>

lemma gateway_rewrites:
  assumes "scope_type scope = Some (str ''http'')"
    and "scope_path scope = Some p"
    and "startswith p (sse_path self)"
    and "headers_dict (case scope_headers scope of Some hs \<Rightarrow> hs | None \<Rightarrow> []) (header_name self)
           = Some (expected_key self)"
    and "rewrite_to self = Some r" and "r \<noteq> []"
    and "list_all (\<lambda>c. c < 256) (r @ drop (length (sse_path self)) p)"
  shows "call self scope =
           Forwarded (scope\<lparr>scope_path := Some (r @ drop (length (sse_path self)) p),
                            scope_raw_path := Some (map char_of (r @ drop (length (sse_path self)) p))\<rparr>)"
proof -
  have "replace_first (sse_path self) r p = r @ drop (length (sse_path self)) p"
    using assms(3) by (simp add: replace_first_prefix startswith_def)
  then show ?thesis
    using assms by (simp add: call_def Let_def encode_latin1_def)
qed

text \<open>A path under neither the external nor the internal prefix is forwarded untouched,
  whatever the headers.\<close>

lemma gateway_unrelated_path:
  assumes "scope_path scope = Some p"
    and "\<not> startswith p (sse_path self)"
    and "\<not> (case rewrite_to self of Some r \<Rightarrow> r \<noteq> [] \<and> startswith p r | None \<Rightarrow> False)"
  shows "call self scope = Forwarded scope"
  using assms by (simp add: call_def Let_def)

text \<open>
  C1. The claim: under the external path a wrong key gives 401 without a downstream call,
  the right key with a rewrite target makes the downstream app see the rewritten path,
  and an unrelated path is forwarded untouched. The first and the last part hold
  (\<open>gateway_rejects\<close>, \<open>gateway_unrelated_path\<close>). The middle part fails on a path with a
  code point above 255: the request \<open>/mcp/\<euro>\<close> (code point 8364) with the right key
  matches the prefix, passes the key check, and then \<open>new_path.encode("latin1")\<close> raises
  \<open>UnicodeEncodeError\<close>, so the downstream app is never awaited.
\<close>

theorem gateway_rewrite_raises_on_non_latin1_path:
  "call (mcp_gateway (str ''123''))
        (http_scope (str ''/mcp/'' @ [8364]) [(''x-api-key'', ''123'')])
     = Raised UnicodeEncodeError"
  by (simp add: call_def mcp_gateway_def http_scope_def headers_dict_def str_def
      startswith_def decode_latin1_def lower_def lower_cp_def encode_latin1_def Let_def)

text \<open>
  C10. A scope whose type is not \<open>http\<close> (websocket, lifespan, or no type at all) is handed
  to the wrapped app unchanged: no header is read, no 401 is sent, no path is rewritten,
  also when its path lies under the protected prefix.
\<close>

theorem non_http_scope_bypasses_gateway:
  "scope_type scope \<noteq> Some (str ''http'') \<Longrightarrow> call self scope = Forwarded scope"
  by (simp add: call_def)

theorem non_http_scope_bypasses_gateway_witness:
  "scope_type (\<lparr>scope_type = Some (str ''websocket''), scope_path = Some (str ''/mcp/ws''),
                scope_raw_path = None, scope_headers = Some []\<rparr>) \<noteq> Some (str ''http'')
   \<and> call (mcp_gateway (str ''123''))
        \<lparr>scope_type = Some (str ''websocket''), scope_path = Some (str ''/mcp/ws''),
         scope_raw_path = None, scope_headers = Some []\<rparr>
     = Forwarded \<lparr>scope_type = Some (str ''websocket''), scope_path = Some (str ''/mcp/ws''),
         scope_raw_path = None, scope_headers = Some []\<rparr>"
proof -
  have h: "scope_type (\<lparr>scope_type = Some (str ''websocket''), scope_path = Some (str ''/mcp/ws''),
                scope_raw_path = None, scope_headers = Some []\<rparr>) \<noteq> Some (str ''http'')"
    by (simp add: str_def)
  show ?thesis
    using h non_http_scope_bypasses_gateway [OF h, of "mcp_gateway (str ''123'')"] by simp
qed


section \<open>Properties of the token file\<close>

lemma no_linebreak_simps [simp]:
  "no_linebreak []"
  "no_linebreak (c # cs) = (\<not> is_linebreak c \<and> no_linebreak cs)"
  "no_linebreak (xs @ ys) = (no_linebreak xs \<and> no_linebreak ys)"
  by (auto simp: no_linebreak_def)

lemma is_linebreak_13 [simp]: "is_linebreak 13" "is_linebreak 10"
  by (simp_all add: is_linebreak_def)

lemma not_linebreak_neq: "\<not> is_linebreak c \<Longrightarrow> c \<noteq> 13 \<and> c \<noteq> 10"
  by auto

lemma splitlines_from_line:
  "no_linebreak l \<Longrightarrow> splitlines_from cur (l @ 10 # rest) = (cur @ l) # splitlines_from [] rest"
proof (induction l arbitrary: cur)
  case Nil
  show ?case by simp
next
  case (Cons c l)
  then have "c \<noteq> 13" "\<not> is_linebreak c" "no_linebreak l" by auto
  with Cons.IH [of "cur @ [c]"] show ?case by simp
qed

lemma splitlines_join:
  "lines \<noteq> [] \<Longrightarrow> list_all no_linebreak lines \<Longrightarrow> splitlines (join [10] lines @ [10]) = lines"
proof (induction "[10::nat]" lines rule: join.induct)
  case 1
  then show ?case by simp
next
  case (2 x)
  then show ?case
    using splitlines_from_line [of x "[]" "[]"] by (simp add: splitlines_def)
next
  case (3 x y ys)
  then show ?case
    using splitlines_from_line [of x "[]" "join [10] (y # ys) @ [10]"]
    by (simp add: splitlines_def)
qed

lemma universal_newlines_id: "13 \<notin> set s \<Longrightarrow> universal_newlines s = s"
  by (induction s) auto

lemma no_linebreak_no_cr: "no_linebreak s \<Longrightarrow> 13 \<notin> set s"
  by (induction s) auto

lemma join_no_cr: "list_all no_linebreak lines \<Longrightarrow> 13 \<notin> set (join [10] lines)"
  by (induction "[10::nat]" lines rule: join.induct) (auto dest: no_linebreak_no_cr)

lemma file_lines_join:
  assumes "lines \<noteq> []" "list_all no_linebreak lines"
  shows "file_lines (Text (join [10] lines @ [10])) = lines"
proof -
  have "13 \<notin> set (join [10] lines @ [10])" using join_no_cr [OF assms(2)] by simp
  then show ?thesis
    by (simp add: file_lines_def universal_newlines_id splitlines_join [OF assms])
qed

lemma splitlines_from_no_linebreak:
  "no_linebreak cur \<Longrightarrow> list_all no_linebreak (splitlines_from cur s)"
  by (induction cur s rule: splitlines_from.induct) (auto split: list.splits)

lemma file_lines_no_linebreak: "list_all no_linebreak (file_lines f)"
  by (cases f) (simp_all add: file_lines_def splitlines_def splitlines_from_no_linebreak)

lemma read_lines_valid: "valid_utf8 f \<Longrightarrow> read_lines f = Inr (file_lines f)"
  by (cases f) (simp_all add: valid_utf8_def read_lines_def file_lines_def)

text \<open>Splitting and joining keep a text encodable.\<close>

lemma utf8_encodable_simps [simp]:
  "utf8_encodable []"
  "utf8_encodable (c # cs) = (is_scalar c \<and> utf8_encodable cs)"
  "utf8_encodable (xs @ ys) = (utf8_encodable xs \<and> utf8_encodable ys)"
  by (simp_all add: utf8_encodable_def)

lemma is_scalar_10 [simp]: "is_scalar 10"
  by (simp add: is_scalar_def)

lemma universal_newlines_encodable:
  "utf8_encodable s \<Longrightarrow> utf8_encodable (universal_newlines s)"
proof (induction s rule: universal_newlines.induct)
  case 1
  show ?case by simp
next
  case (2 c cs)
  show ?case
  proof (cases "c = 13")
    case True
    show ?thesis
    proof (cases cs)
      case Nil
      with True show ?thesis by simp
    next
      case (Cons d ds)
      show ?thesis
      proof (cases "d = 10")
        case d: True
        have "utf8_encodable ds" using "2.prems" Cons by simp
        then have "utf8_encodable (universal_newlines ds)"
          using "2.IH"(1) [OF True Cons d] by simp
        then show ?thesis using True Cons d by simp
      next
        case d: False
        have "utf8_encodable cs" using "2.prems" by simp
        then have "utf8_encodable (universal_newlines cs)"
          using "2.IH"(2) [OF True Cons d] by simp
        then show ?thesis using True Cons d by simp
      qed
    qed
  next
    case False
    have "utf8_encodable cs" "is_scalar c" using "2.prems" by simp_all
    then show ?thesis using False "2.IH"(3) [OF False] by simp
  qed
qed

lemma splitlines_from_encodable:
  "utf8_encodable cur \<Longrightarrow> utf8_encodable s \<Longrightarrow> list_all utf8_encodable (splitlines_from cur s)"
proof (induction cur s rule: splitlines_from.induct)
  case (1 cur)
  then show ?case by simp
next
  case (2 cur c cs)
  have cs: "utf8_encodable cs" and c: "is_scalar c" using "2.prems"(2) by simp_all
  show ?case
  proof (cases "c = 13")
    case True
    show ?thesis
    proof (cases cs)
      case Nil
      with True "2.prems"(1) show ?thesis by simp
    next
      case (Cons d ds)
      show ?thesis
      proof (cases "d = 10")
        case d: True
        have "utf8_encodable ds" using cs Cons by simp
        then have "list_all utf8_encodable (splitlines_from [] ds)"
          using "2.IH"(1) [OF True Cons d] by simp
        then show ?thesis using True Cons d "2.prems"(1) by simp
      next
        case d: False
        have "list_all utf8_encodable (splitlines_from [] cs)"
          using "2.IH"(2) [OF True Cons d] cs by simp
        then show ?thesis using True Cons d "2.prems"(1) by simp
      qed
    qed
  next
    case False
    show ?thesis
    proof (cases "is_linebreak c")
      case lb: True
      have "list_all utf8_encodable (splitlines_from [] cs)"
        using "2.IH"(3) [OF False lb] cs by simp
      then show ?thesis using False lb "2.prems"(1) by simp
    next
      case lb: False
      have "list_all utf8_encodable (splitlines_from (cur @ [c]) cs)"
        using "2.IH"(4) [OF False lb] cs c "2.prems"(1) by simp
      then show ?thesis using False lb by simp
    qed
  qed
qed

lemma file_lines_encodable: "valid_utf8 f \<Longrightarrow> list_all utf8_encodable (file_lines f)"
  by (cases f)
    (simp_all add: valid_utf8_def file_lines_def splitlines_def splitlines_from_encodable
      universal_newlines_encodable)

lemma join_encodable:
  "list_all utf8_encodable lines \<Longrightarrow> utf8_encodable (join [10] lines)"
  by (induction "[10::nat]" lines rule: join.induct) auto

lemma key_lines [simp]:
  "startswith (access_line a) (str ''DIDA_ACCESS_TOKEN='')"
  "\<not> startswith (access_line a) (str ''DIDA_REFRESH_TOKEN='')"
  "startswith (refresh_line r) (str ''DIDA_REFRESH_TOKEN='')"
  "\<not> startswith (refresh_line r) (str ''DIDA_ACCESS_TOKEN='')"
  by (simp_all add: access_line_def refresh_line_def startswith_def str_def)

lemma upsert_access:
  "upsert (str ''DIDA_ACCESS_TOKEN'') (Some a) lines =
     filter (\<lambda>ln. \<not> startswith ln (str ''DIDA_ACCESS_TOKEN='')) lines @ [access_line a]"
  by (simp add: upsert_def access_line_def str_def)

lemma upsert_refresh:
  "upsert (str ''DIDA_REFRESH_TOKEN'') (Some (case r of None \<Rightarrow> [] | Some x \<Rightarrow> x)) lines =
     filter (\<lambda>ln. \<not> startswith ln (str ''DIDA_REFRESH_TOKEN='')) lines @ [refresh_line r]"
  by (simp add: upsert_def refresh_line_def str_def)

text \<open>The text that \<open>write_env_tokens\<close> assembles from the lines it read.\<close>

lemma write_env_tokens_lines:
  assumes "read_lines f = Inr lines"
  shows "write_env_tokens f (Some a) r =
     (if utf8_encodable
           (join [10] (unrelated_lines lines @ [access_line a, refresh_line r]) @
            (if endswith (refresh_line r) [10] then [] else [10]))
      then (None,
            Text (join [10] (unrelated_lines lines @ [access_line a, refresh_line r]) @
                  (if endswith (refresh_line r) [10] then [] else [10])))
      else (Some UnicodeEncodeError, Text []))"
  by (simp add: write_env_tokens_def assms Let_def upsert_access upsert_refresh
      unrelated_lines_def content_endswith_newline_def)

lemma unrelated_lines_again:
  "unrelated_lines (unrelated_lines lines @ [access_line a, refresh_line r]) = unrelated_lines lines"
  by (induction lines) (auto simp: unrelated_lines_def)

lemma refresh_line_end:
  "no_linebreak (case r of None \<Rightarrow> [] | Some x \<Rightarrow> x) \<Longrightarrow> \<not> endswith (refresh_line r) [10]"
proof -
  assume "no_linebreak (case r of None \<Rightarrow> [] | Some x \<Rightarrow> x)"
  then have "no_linebreak (refresh_line r)"
    by (simp add: refresh_line_def str_def is_linebreak_def)
  then have "10 \<notin> set (refresh_line r)"
    by (induction "refresh_line r") (auto simp: no_linebreak_def list_all_iff)
  then show ?thesis
    by (auto simp: endswith_def suffix_def)
qed

lemma join_snoc: "xs \<noteq> [] \<Longrightarrow> join sep (xs @ [y]) = join sep xs @ sep @ y"
  by (induction sep xs rule: join.induct) auto

lemma no_linebreak_key_lines:
  "no_linebreak a \<Longrightarrow> no_linebreak (access_line a)"
  "no_linebreak (case r of None \<Rightarrow> [] | Some x \<Rightarrow> x) \<Longrightarrow> no_linebreak (refresh_line r)"
  by (simp_all add: access_line_def refresh_line_def str_def is_linebreak_def)

lemma encodable_key_lines:
  "utf8_encodable a \<Longrightarrow> utf8_encodable (access_line a)"
  "utf8_encodable (case r of None \<Rightarrow> [] | Some x \<Rightarrow> x) \<Longrightarrow> utf8_encodable (refresh_line r)"
  by (simp_all add: access_line_def refresh_line_def str_def is_scalar_def)

lemma unrelated_lines_no_key:
  "filter (\<lambda>ln. startswith ln (str ''DIDA_ACCESS_TOKEN='')) (unrelated_lines lines) = []"
  "filter (\<lambda>ln. startswith ln (str ''DIDA_REFRESH_TOKEN='')) (unrelated_lines lines) = []"
  by (induction lines) (auto simp: unrelated_lines_def)

lemma refresh_line_last:
  assumes "no_linebreak (case r of None \<Rightarrow> [] | Some x \<Rightarrow> x)"
  shows "refresh_line r \<noteq> [] \<and> last (refresh_line r) \<noteq> 10"
proof -
  have ne: "refresh_line r \<noteq> []" by (simp add: refresh_line_def str_def)
  have "no_linebreak (refresh_line r)" using assms by (rule no_linebreak_key_lines)
  then have "10 \<notin> set (refresh_line r)"
    by (auto simp: no_linebreak_def list_all_iff)
  with ne show ?thesis using last_in_set by metis
qed

lemmas env_eval = write_env_tokens_def read_lines_def file_lines_def splitlines_def upsert_def
  content_endswith_newline_def startswith_def endswith_def suffix_to_prefix str_def Let_def
  is_linebreak_def is_scalar_def

text \<open>The two exceptions. A file that is not UTF-8 is left as it is. A token with a lone
  surrogate, which a JSON response can carry as \<open>\ud800\<close>, costs every line of the file.\<close>

lemma write_env_tokens_undecodable_file:
  "write_env_tokens Undecodable a r = (Some UnicodeDecodeError, Undecodable)"
  by (simp add: write_env_tokens_def read_lines_def)

lemma write_env_tokens_surrogate_token:
  "write_env_tokens (Text (str ''FOO=1'' @ [10])) (Some [55296]) None
     = (Some UnicodeEncodeError, Text [])"
  by (simp add: env_eval)

text \<open>
  C6. The claim quantifies over every token pair. It fails for a token with a line break:
  written from no file, the access token \<open>x\<close>, line feed, \<open>FOO=1\<close> gives the three lines
  \<open>DIDA_ACCESS_TOKEN=x\<close>, \<open>FOO=1\<close>, \<open>DIDA_REFRESH_TOKEN=r\<close>; the second run reads \<open>FOO=1\<close>
  as an unrelated line, keeps it and appends the two-line token again.
\<close>

theorem write_env_tokens_newline_token_not_idempotent:
  "write_env_tokens Missing (Some (str ''x'' @ [10] @ str ''FOO=1'')) (Some (str ''r''))
     = (None, Text (str ''DIDA_ACCESS_TOKEN=x'' @ [10] @ str ''FOO=1'' @ [10]
                    @ str ''DIDA_REFRESH_TOKEN=r'' @ [10]))
   \<and> write_env_tokens
       (Text (str ''DIDA_ACCESS_TOKEN=x'' @ [10] @ str ''FOO=1'' @ [10]
              @ str ''DIDA_REFRESH_TOKEN=r'' @ [10]))
       (Some (str ''x'' @ [10] @ str ''FOO=1'')) (Some (str ''r''))
     = (None, Text (str ''FOO=1'' @ [10] @ str ''DIDA_ACCESS_TOKEN=x'' @ [10] @ str ''FOO=1'' @ [10]
                    @ str ''DIDA_REFRESH_TOKEN=r'' @ [10]))
   \<and> str ''FOO=1'' @ [10] @ str ''DIDA_ACCESS_TOKEN=x'' @ [10] @ str ''FOO=1'' @ [10]
         @ str ''DIDA_REFRESH_TOKEN=r'' @ [10]
       \<noteq> str ''DIDA_ACCESS_TOKEN=x'' @ [10] @ str ''FOO=1'' @ [10] @ str ''DIDA_REFRESH_TOKEN=r'' @ [10]"
proof -
  have 1: "write_env_tokens Missing (Some (str ''x'' @ [10] @ str ''FOO=1'')) (Some (str ''r''))
     = (None, Text (str ''DIDA_ACCESS_TOKEN=x'' @ [10] @ str ''FOO=1'' @ [10]
                    @ str ''DIDA_REFRESH_TOKEN=r'' @ [10]))"
    by (simp add: env_eval)
  have 2: "write_env_tokens
       (Text (str ''DIDA_ACCESS_TOKEN=x'' @ [10] @ str ''FOO=1'' @ [10]
              @ str ''DIDA_REFRESH_TOKEN=r'' @ [10]))
       (Some (str ''x'' @ [10] @ str ''FOO=1'')) (Some (str ''r''))
     = (None, Text (str ''FOO=1'' @ [10] @ str ''DIDA_ACCESS_TOKEN=x'' @ [10] @ str ''FOO=1'' @ [10]
                    @ str ''DIDA_REFRESH_TOKEN=r'' @ [10]))"
    by (simp add: env_eval)
  have 3: "str ''FOO=1'' @ [10] @ str ''DIDA_ACCESS_TOKEN=x'' @ [10] @ str ''FOO=1'' @ [10]
         @ str ''DIDA_REFRESH_TOKEN=r'' @ [10]
       \<noteq> str ''DIDA_ACCESS_TOKEN=x'' @ [10] @ str ''FOO=1'' @ [10] @ str ''DIDA_REFRESH_TOKEN=r'' @ [10]"
    by (simp add: str_def)
  from 1 2 3 show ?thesis by (intro conjI)
qed

text \<open>
  C6, amended to a file that is missing or valid UTF-8 and to tokens that have no line
  boundary and no lone surrogate. The first run raises nothing and writes a text; a
  second run with the same tokens raises nothing and writes the same text; the lines of
  neither key are the ones of the file, in their order; each key has exactly one line,
  carrying the token (for no refresh token: \<open>DIDA_REFRESH_TOKEN=\<close> with an empty value);
  and the text ends with one newline, not two.
\<close>

theorem write_env_tokens_idempotent:
  assumes "valid_utf8 f"
    and "no_linebreak a" and "utf8_encodable a"
    and "no_linebreak (case r of None \<Rightarrow> [] | Some x \<Rightarrow> x)"
    and "utf8_encodable (case r of None \<Rightarrow> [] | Some x \<Rightarrow> x)"
  shows "\<exists>out.
       write_env_tokens f (Some a) r = (None, Text out)
       \<and> write_env_tokens (Text out) (Some a) r = (None, Text out)
       \<and> unrelated_lines (file_lines (Text out)) = unrelated_lines (file_lines f)
       \<and> filter (\<lambda>ln. startswith ln (str ''DIDA_ACCESS_TOKEN='')) (file_lines (Text out))
           = [str ''DIDA_ACCESS_TOKEN='' @ a]
       \<and> filter (\<lambda>ln. startswith ln (str ''DIDA_REFRESH_TOKEN='')) (file_lines (Text out))
           = [str ''DIDA_REFRESH_TOKEN='' @ (case r of None \<Rightarrow> [] | Some x \<Rightarrow> x)]
       \<and> endswith out [10]
       \<and> \<not> endswith out [10, 10]"
proof -
  define K where "K = unrelated_lines (file_lines f)"
  define A where "A = access_line a"
  define R where "R = refresh_line r"
  define out where "out = join [10] (K @ [A, R]) @ [10]"
  have R_end: "\<not> endswith R [10]"
    unfolding R_def using assms(4) by (rule refresh_line_end)
  have "list_all utf8_encodable (file_lines f)"
    using assms(1) by (rule file_lines_encodable)
  then have "list_all utf8_encodable K"
    by (simp add: K_def unrelated_lines_def list_all_iff)
  then have "list_all utf8_encodable (K @ [A, R])"
    using assms(3,5) by (simp add: A_def R_def encodable_key_lines)
  then have enc: "utf8_encodable out"
    by (simp add: out_def join_encodable)
  have "list_all no_linebreak (file_lines f)" by (rule file_lines_no_linebreak)
  then have "list_all no_linebreak K"
    by (simp add: K_def unrelated_lines_def list_all_iff)
  then have clean: "list_all no_linebreak (K @ [A, R])"
    using assms(2,4) by (simp add: A_def R_def no_linebreak_key_lines)
  have lines: "file_lines (Text out) = K @ [A, R]"
    unfolding out_def by (rule file_lines_join [OF _ clean]) simp
  have again: "unrelated_lines (K @ [A, R]) = K"
    unfolding K_def A_def R_def by (rule unrelated_lines_again)
  have 0: "write_env_tokens f (Some a) r = (None, Text out)"
    using R_end enc
    by (simp add: write_env_tokens_lines [OF read_lines_valid [OF assms(1)]]
        K_def [symmetric] A_def [symmetric] R_def [symmetric] out_def [symmetric])
  have "valid_utf8 (Text out)"
    using enc by (simp add: valid_utf8_def)
  then have "read_lines (Text out) = Inr (K @ [A, R])"
    using lines by (simp add: read_lines_valid)
  then have 1: "write_env_tokens (Text out) (Some a) r = (None, Text out)"
    using R_end enc
    by (simp add: write_env_tokens_lines again A_def [symmetric] R_def [symmetric]
        out_def [symmetric])
  have 2: "unrelated_lines (file_lines (Text out)) = unrelated_lines (file_lines f)"
    by (simp add: lines again) (simp add: K_def)
  have 3: "filter (\<lambda>ln. startswith ln (str ''DIDA_ACCESS_TOKEN='')) (file_lines (Text out)) = [A]"
    by (simp add: lines K_def unrelated_lines_no_key A_def R_def)
  have 4: "filter (\<lambda>ln. startswith ln (str ''DIDA_REFRESH_TOKEN='')) (file_lines (Text out)) = [R]"
    by (simp add: lines K_def unrelated_lines_no_key A_def R_def)
  have 5: "endswith out [10]"
    by (simp add: out_def endswith_def)
  have "join [10] (K @ [A, R]) = join [10] (K @ [A]) @ [10] @ R"
    using join_snoc [of "K @ [A]" "[10]" R] by simp
  moreover have "R \<noteq> [] \<and> last R \<noteq> 10"
    unfolding R_def using assms(4) by (rule refresh_line_last)
  ultimately have "last (join [10] (K @ [A, R])) \<noteq> 10" "join [10] (K @ [A, R]) \<noteq> []"
    by simp_all
  then have 6: "\<not> endswith out [10, 10]"
    by (auto simp: out_def endswith_def suffix_def append_eq_append_conv2 Cons_eq_append_conv)
  from 0 1 2 3 4 5 6 show ?thesis
    by (auto simp: A_def R_def access_line_def refresh_line_def)
qed

theorem write_env_tokens_idempotent_witness:
  "valid_utf8 (Text (str ''FOO=1'' @ [10] @ str ''DIDA_ACCESS_TOKEN=old''))
   \<and> no_linebreak (str ''abc'') \<and> utf8_encodable (str ''abc'')
   \<and> no_linebreak (case Some (str ''def'') of None \<Rightarrow> [] | Some x \<Rightarrow> x)
   \<and> utf8_encodable (case Some (str ''def'') of None \<Rightarrow> [] | Some x \<Rightarrow> x)
   \<and> write_env_tokens (Text (str ''FOO=1'' @ [10] @ str ''DIDA_ACCESS_TOKEN=old''))
        (Some (str ''abc'')) (Some (str ''def''))
      = (None, Text (str ''FOO=1'' @ [10] @ str ''DIDA_ACCESS_TOKEN=abc'' @ [10]
                     @ str ''DIDA_REFRESH_TOKEN=def'' @ [10]))
   \<and> write_env_tokens
        (Text (str ''FOO=1'' @ [10] @ str ''DIDA_ACCESS_TOKEN=abc'' @ [10]
               @ str ''DIDA_REFRESH_TOKEN=def'' @ [10]))
        (Some (str ''abc'')) (Some (str ''def''))
      = (None, Text (str ''FOO=1'' @ [10] @ str ''DIDA_ACCESS_TOKEN=abc'' @ [10]
                     @ str ''DIDA_REFRESH_TOKEN=def'' @ [10]))"
proof -
  let ?f = "Text (str ''FOO=1'' @ [10] @ str ''DIDA_ACCESS_TOKEN=old'')"
  let ?out = "str ''FOO=1'' @ [10] @ str ''DIDA_ACCESS_TOKEN=abc'' @ [10]
                @ str ''DIDA_REFRESH_TOKEN=def'' @ [10]"
  have f: "valid_utf8 ?f"
    by (simp add: valid_utf8_def str_def is_scalar_def)
  have a: "no_linebreak (str ''abc'')" and a': "utf8_encodable (str ''abc'')"
    by (simp_all add: str_def is_linebreak_def is_scalar_def)
  have r: "no_linebreak (case Some (str ''def'') of None \<Rightarrow> [] | Some x \<Rightarrow> x)"
    and r': "utf8_encodable (case Some (str ''def'') of None \<Rightarrow> [] | Some x \<Rightarrow> x)"
    by (simp_all add: str_def is_linebreak_def is_scalar_def)
  have e: "write_env_tokens ?f (Some (str ''abc'')) (Some (str ''def'')) = (None, Text ?out)"
    by (simp add: env_eval)
  from write_env_tokens_idempotent [OF f a a' r r']
  obtain out where o: "write_env_tokens ?f (Some (str ''abc'')) (Some (str ''def'')) = (None, Text out)"
    and i: "write_env_tokens (Text out) (Some (str ''abc'')) (Some (str ''def'')) = (None, Text out)"
    by blast
  from o e have "out = ?out" by simp
  with i have "write_env_tokens (Text ?out) (Some (str ''abc'')) (Some (str ''def''))
                 = (None, Text ?out)"
    by simp
  with f a a' r r' e show ?thesis by (intro conjI)
qed


section \<open>Properties of the OAuth client\<close>

lemmas oauth_eval = exchange_token_def refresh_access_token_def load_tokens_def Let_def
  raise_for_status_def dict_get_def dict_get_default_def truthy_def py_or_def str_def

text \<open>
  C9. Without a refresh token (\<open>None\<close> or the empty string) \<open>refresh_access_token\<close> returns
  \<open>False\<close>, leaves the session as it is and issues no HTTP call, whatever the network
  would answer.
\<close>

theorem refresh_without_refresh_token:
  "\<not> truthy (refresh_token self) \<Longrightarrow> refresh_access_token post self = (False, self, [])"
  by (simp add: refresh_access_token_def)

theorem refresh_without_refresh_token_witness:
  "\<not> truthy (refresh_token fresh_client)
   \<and> refresh_access_token (\<lambda>_. Response 200 (JsonObject [str ''access_token'' \<mapsto> Some (str ''t'')]))
        fresh_client = (False, fresh_client, [])"
proof -
  have h: "\<not> truthy (refresh_token fresh_client)"
    by (simp add: fresh_client_def init_client_def truthy_def)
  show ?thesis
    using h refresh_without_refresh_token [OF h] by simp
qed




text \<open>
  C7. The claim lists the two tokens among the fields that an absent key leaves alone.
  They are not: \<open>config.get("access_token")\<close> has no default. A session that holds the
  tokens \<open>tok\<close> and \<open>ref\<close> and loads the file \<open>{}\<close> holds neither afterwards.
\<close>

theorem load_tokens_clears_tokens:
  "access_token (fresh_client\<lparr>access_token := Some (str ''tok''), refresh_token := Some (str ''ref'')\<rparr>)
     = Some (str ''tok'')
   \<and> load_tokens (fresh_client\<lparr>access_token := Some (str ''tok''), refresh_token := Some (str ''ref'')\<rparr>)
        [str ''oauth_config.json'' \<mapsto> JsonObject Map.empty] (str ''oauth_config.json'')
     = (False, fresh_client)"
  by (simp add: oauth_eval fresh_client_def init_client_def)

text \<open>
  C7, amended. From a file that holds a JSON object, \<open>load_tokens\<close> leaves \<open>client_id\<close>,
  \<open>client_secret\<close> and \<open>redirect_uri\<close> untouched when their key is absent, and sets both
  tokens to what the file has (unset for an absent key); it returns whether the file's
  access token is non-empty. From a missing file or one that is no JSON object it returns
  \<open>False\<close> and leaves the whole session untouched.
\<close>

theorem load_tokens_frame:
  "load_tokens self fs p = (ok, self') \<Longrightarrow>
     (\<forall>config. fs p = Some (JsonObject config) \<longrightarrow>
        (config (str ''client_id'') = None \<longrightarrow> client_id self' = client_id self) \<and>
        (config (str ''client_secret'') = None \<longrightarrow> client_secret self' = client_secret self) \<and>
        (config (str ''redirect_uri'') = None \<longrightarrow> redirect_uri self' = redirect_uri self) \<and>
        access_token self' = dict_get config (str ''access_token'') \<and>
        refresh_token self' = dict_get config (str ''refresh_token'') \<and>
        ok = truthy (dict_get config (str ''access_token'')))
     \<and> ((\<forall>config. fs p \<noteq> Some (JsonObject config)) \<longrightarrow> \<not> ok \<and> self' = self)"
  by (auto simp: load_tokens_def Let_def dict_get_default_def split: option.splits json_body.splits)

theorem load_tokens_frame_witness:
  "load_tokens fresh_client
     [str ''oauth_config.json'' \<mapsto> JsonObject [str ''access_token'' \<mapsto> Some (str ''tok'')]]
     (str ''oauth_config.json'')
     = (True, fresh_client\<lparr>access_token := Some (str ''tok'')\<rparr>)
   \<and> client_id (fresh_client\<lparr>access_token := Some (str ''tok'')\<rparr>) = client_id fresh_client
   \<and> access_token (fresh_client\<lparr>access_token := Some (str ''tok'')\<rparr>)
       = dict_get [str ''access_token'' \<mapsto> Some (str ''tok'')] (str ''access_token'')"
proof -
  let ?cfg = "[str ''access_token'' \<mapsto> Some (str ''tok'')] :: json_dict"
  let ?fs = "[str ''oauth_config.json'' \<mapsto> JsonObject ?cfg] :: files"
  have 1: "load_tokens fresh_client ?fs (str ''oauth_config.json'')
             = (True, fresh_client\<lparr>access_token := Some (str ''tok'')\<rparr>)"
    by (simp add: oauth_eval fresh_client_def init_client_def)
  have 2: "?fs (str ''oauth_config.json'') = Some (JsonObject ?cfg)" by simp
  have 3: "?cfg (str ''client_id'') = None" by (simp add: str_def)
  from load_tokens_frame [OF 1] 2 3
  have "client_id (fresh_client\<lparr>access_token := Some (str ''tok'')\<rparr>) = client_id fresh_client
      \<and> access_token (fresh_client\<lparr>access_token := Some (str ''tok'')\<rparr>)
          = dict_get ?cfg (str ''access_token'')"
    by blast
  with 1 show ?thesis by blast
qed



section \<open>Properties of the authorization URL\<close>

lemma get_authorization_url_verbatim:
  "get_authorization_url self scope =
     AUTH_URL @ str ''?client_id='' @ fmt (client_id self) @ str ''&scope='' @ scope
       @ str ''&state=random_state&redirect_uri='' @ fmt (redirect_uri self)
       @ str ''&response_type=code''"
  by (simp add: get_authorization_url_def Let_def str_def)

lemma query_safe_chars:
  "query_safe v \<Longrightarrow> c \<in> set v \<Longrightarrow>
     c \<noteq> 9 \<and> c \<noteq> 10 \<and> c \<noteq> 13 \<and> c \<noteq> 35 \<and> c \<noteq> 37 \<and> c \<noteq> 38 \<and> c \<noteq> 43"
  by (auto simp: query_safe_def list_all_iff)

lemma split_at_field:
  "sep \<notin> set a \<Longrightarrow> split_at sep (a @ sep # rest) = a # split_at sep rest"
  by (induction a) auto

lemma split_at_last:
  "sep \<notin> set a \<Longrightarrow> split_at sep a = [a]"
  by (induction a) auto

lemma unquote_plain: "37 \<notin> set s \<Longrightarrow> unquote s = Some s"
  by (induction s) auto

lemma plus_to_space_plain: "43 \<notin> set s \<Longrightarrow> plus_to_space s = s"
  by (induction s) (auto simp: plus_to_space_def)

lemma decode_safe: "query_safe v \<Longrightarrow> unquote (plus_to_space v) = Some v"
  using query_safe_chars [of v 37] query_safe_chars [of v 43]
  by (metis plus_to_space_plain unquote_plain)

lemma takeWhile_until: "x \<notin> set a \<Longrightarrow> takeWhile (\<lambda>c. c \<noteq> x) (a @ x # r) = a"
  by (induction a) auto

lemma dropWhile_until: "x \<notin> set a \<Longrightarrow> dropWhile (\<lambda>c. c \<noteq> x) (a @ x # r) = x # r"
  by (induction a) auto

lemma parse_pair_field:
  assumes "61 \<notin> set name" "37 \<notin> set name" "43 \<notin> set name" "query_safe v"
  shows "parse_pair (name @ 61 # v) = Some [(name, v)]"
proof -
  have 1: "takeWhile (\<lambda>c. c \<noteq> 61) (name @ 61 # v) = name"
    using assms(1) by (rule takeWhile_until)
  have 2: "dropWhile (\<lambda>c. c \<noteq> 61) (name @ 61 # v) = 61 # v"
    using assms(1) by (rule dropWhile_until)
  have 3: "v \<noteq> []" using assms(4) by (simp add: query_safe_def)
  show ?thesis
    using 3 assms(2,3) decode_safe [OF assms(4)]
    by (simp add: parse_pair_def 1 2 Let_def unquote_plain plus_to_space_plain)
qed


lemma url_query_of_authorization_url:
  assumes "list_all (\<lambda>c. c \<notin> set [9, 10, 13, 35]) qs"
  shows "url_query (AUTH_URL @ 63 # qs) = qs"
proof -
  have a: "filter (\<lambda>c. c \<notin> set [9, 10, 13]) (AUTH_URL @ 63 # qs) = AUTH_URL @ 63 # qs"
    using assms by (auto simp: AUTH_URL_def str_def list_all_iff filter_id_conv)
  have "\<forall>c\<in>set (AUTH_URL @ 63 # qs). c \<noteq> 35"
    using assms by (auto simp: AUTH_URL_def str_def list_all_iff)
  then have b: "takeWhile (\<lambda>c. c \<noteq> 35) (AUTH_URL @ 63 # qs) = AUTH_URL @ 63 # qs"
    by (simp add: takeWhile_eq_all_conv)
  have "63 \<notin> set AUTH_URL"
    by (simp add: AUTH_URL_def str_def)
  then have c: "dropWhile (\<lambda>c. c \<noteq> 63) (AUTH_URL @ 63 # qs) = 63 # qs"
    by (rule dropWhile_until)
  show ?thesis
    unfolding url_query_def Let_def a b c by simp
qed

text \<open>
  C3, amended. \<open>get_authorization_url\<close> inserts every value verbatim, with no encoding. For
  a client id, a scope and a redirect URI that are \<open>query_safe\<close>, the query of the URL
  decodes to exactly the five parameters with the values given.
\<close>

theorem authorization_url_round_trip:
  assumes "client_id self = Some cid" and "redirect_uri self = Some ruri"
    and "query_safe cid" and "query_safe scope" and "query_safe ruri"
  shows "get_authorization_url self scope =
           AUTH_URL @ str ''?client_id='' @ cid @ str ''&scope='' @ scope
             @ str ''&state=random_state&redirect_uri='' @ ruri @ str ''&response_type=code''
       \<and> parse_qsl (url_query (get_authorization_url self scope)) =
           Some [(str ''client_id'', cid), (str ''scope'', scope),
                 (str ''state'', str ''random_state''), (str ''redirect_uri'', ruri),
                 (str ''response_type'', str ''code'')]"
proof -
  define f1 where "f1 = str ''client_id'' @ 61 # cid"
  define f2 where "f2 = str ''scope'' @ 61 # scope"
  define f3 where "f3 = str ''state'' @ 61 # str ''random_state''"
  define f4 where "f4 = str ''redirect_uri'' @ 61 # ruri"
  define f5 where "f5 = str ''response_type'' @ 61 # str ''code''"
  define qs where "qs = f1 @ 38 # f2 @ 38 # f3 @ 38 # f4 @ 38 # f5"
  have url: "get_authorization_url self scope = AUTH_URL @ 63 # qs"
    using assms(1,2)
    by (simp add: get_authorization_url_verbatim fmt_def qs_def f1_def f2_def f3_def f4_def f5_def str_def)
  have verbatim: "get_authorization_url self scope =
           AUTH_URL @ str ''?client_id='' @ cid @ str ''&scope='' @ scope
             @ str ''&state=random_state&redirect_uri='' @ ruri @ str ''&response_type=code''"
    using assms(1,2) by (simp add: get_authorization_url_verbatim fmt_def)
  have safe: "\<And>v c. query_safe v \<Longrightarrow> c \<in> set v \<Longrightarrow>
      c \<noteq> 9 \<and> c \<noteq> 10 \<and> c \<noteq> 13 \<and> c \<noteq> 35 \<and> c \<noteq> 38"
    using query_safe_chars by blast
  have n1: "38 \<notin> set f1" "38 \<notin> set f2" "38 \<notin> set f3" "38 \<notin> set f4" "38 \<notin> set f5"
    using safe [OF assms(3)] safe [OF assms(4)] safe [OF assms(5)]
    by (auto simp: f1_def f2_def f3_def f4_def f5_def str_def)
  have "list_all (\<lambda>c. c \<notin> set [9, 10, 13, 35]) qs"
    using safe [OF assms(3)] safe [OF assms(4)] safe [OF assms(5)]
    by (auto simp: qs_def f1_def f2_def f3_def f4_def f5_def str_def list_all_iff)
  then have q: "url_query (get_authorization_url self scope) = qs"
    unfolding url by (rule url_query_of_authorization_url)
  have s: "split_at 38 qs = [f1, f2, f3, f4, f5]"
    unfolding qs_def using n1 by (simp add: split_at_field split_at_last)
  have s3: "query_safe (str ''random_state'')" and s5: "query_safe (str ''code'')"
    by (simp_all add: query_safe_def str_def)
  have p1: "parse_pair f1 = Some [(str ''client_id'', cid)]"
    unfolding f1_def by (rule parse_pair_field [OF _ _ _ assms(3)]) (simp_all add: str_def)
  have p2: "parse_pair f2 = Some [(str ''scope'', scope)]"
    unfolding f2_def by (rule parse_pair_field [OF _ _ _ assms(4)]) (simp_all add: str_def)
  have p3: "parse_pair f3 = Some [(str ''state'', str ''random_state'')]"
    unfolding f3_def by (rule parse_pair_field [OF _ _ _ s3]) (simp_all add: str_def)
  have p4: "parse_pair f4 = Some [(str ''redirect_uri'', ruri)]"
    unfolding f4_def by (rule parse_pair_field [OF _ _ _ assms(5)]) (simp_all add: str_def)
  have p5: "parse_pair f5 = Some [(str ''response_type'', str ''code'')]"
    unfolding f5_def by (rule parse_pair_field [OF _ _ _ s5]) (simp_all add: str_def)
  have "parse_qsl qs = Some [(str ''client_id'', cid), (str ''scope'', scope),
                 (str ''state'', str ''random_state''), (str ''redirect_uri'', ruri),
                 (str ''response_type'', str ''code'')]"
    by (simp add: parse_qsl_def s p1 p2 p3 p4 p5)
  with q verbatim show ?thesis by simp
qed

lemmas url_eval = get_authorization_url_def url_query_def parse_qsl_def parse_pair_def
  plus_to_space_def hexval_def AUTH_URL_def fmt_def fresh_client_def init_client_def py_or_def
  truthy_def Let_def str_def

text \<open>
  C3. The claim asks for the round trip with any scope string, which needs percent
  encoding. There is none: the scope \<open>tasks:read+tasks:write\<close> is put into the URL as it
  is, and reads back as \<open>tasks:read tasks:write\<close>.
\<close>

theorem authorization_url_plus_in_scope_not_round_trip:
  "parse_qsl (url_query (get_authorization_url fresh_client (str ''tasks:read+tasks:write'')))
     = Some [(str ''client_id'', str ''id''), (str ''scope'', str ''tasks:read tasks:write''),
             (str ''state'', str ''random_state''),
             (str ''redirect_uri'', str ''http://localhost:38000/callback''),
             (str ''response_type'', str ''code'')]
   \<and> str ''tasks:read tasks:write'' \<noteq> str ''tasks:read+tasks:write''"
  by (simp add: url_eval)

theorem authorization_url_round_trip_witness:
  "client_id fresh_client = Some (str ''id'')
   \<and> redirect_uri fresh_client = Some (str ''http://localhost:38000/callback'')
   \<and> query_safe (str ''id'') \<and> query_safe (str ''tasks:read tasks:write'')
   \<and> query_safe (str ''http://localhost:38000/callback'')
   \<and> parse_qsl (url_query (get_authorization_url fresh_client (str ''tasks:read tasks:write'')))
       = Some [(str ''client_id'', str ''id''), (str ''scope'', str ''tasks:read tasks:write''),
               (str ''state'', str ''random_state''),
               (str ''redirect_uri'', str ''http://localhost:38000/callback''),
               (str ''response_type'', str ''code'')]"
proof -
  have 1: "client_id fresh_client = Some (str ''id'')"
    and 2: "redirect_uri fresh_client = Some (str ''http://localhost:38000/callback'')"
    by (simp_all add: fresh_client_def init_client_def py_or_def truthy_def str_def)
  have 3: "query_safe (str ''id'')" and 4: "query_safe (str ''tasks:read tasks:write'')"
    and 5: "query_safe (str ''http://localhost:38000/callback'')"
    by (simp_all add: query_safe_def str_def)
  note t = authorization_url_round_trip [OF 1 2 3 4 5, THEN conjunct2]
  from 1 2 3 4 5 t show ?thesis by simp
qed


section \<open>Properties of the callback listener\<close>









section \<open>Properties of the bearer check\<close>

lemma replace_nonempty_absent:
  "\<not> sublist old s \<Longrightarrow> replace_nonempty old new s = s"
proof (induction s)
  case Nil
  show ?case by simp
next
  case (Cons c cs)
  then have "\<not> prefix old (c # cs)" "\<not> sublist old cs"
    by (auto simp: sublist_Cons_right)
  with Cons.IH show ?case by simp
qed

lemma replace_nonempty_at_front:
  "old \<noteq> [] \<Longrightarrow> replace_nonempty old new (old @ t) = new @ replace_nonempty old new t"
  by (cases old) simp_all

lemma remove_bearer:
  "\<not> sublist (str ''Bearer '') t \<Longrightarrow> replace_all (str ''Bearer '') [] (str ''Bearer '' @ t) = t"
proof -
  assume a: "\<not> sublist (str ''Bearer '') t"
  have ne: "str ''Bearer '' \<noteq> []" by (simp add: str_def)
  show ?thesis
    using replace_nonempty_at_front [OF ne, of "[]" t] replace_nonempty_absent [OF a, of "[]"]
    by (simp add: replace_all_def ne)
qed

lemma x_api_key_same_header:
  "headers_get hs (str ''X-API-Key'') d = headers_get hs (str ''x-api-key'') d"
  by (simp add: headers_get_def lower_def lower_cp_def str_def)

lemma strip_empty: "strip s \<noteq> [] \<Longrightarrow> s \<noteq> []"
  by (auto simp: strip_def)

lemma verify_bearer:
  assumes "truthy key"
    and "headers_get hs (str ''Authorization'') [] = str ''Bearer '' @ t"
    and "\<not> sublist (str ''Bearer '') t"
  shows "verify_api_key key hs = (Some (strip t) = key)"
  using assms
  by (auto simp: verify_api_key_def Let_def startswith_def remove_bearer truthy_def)

lemma verify_x_api_key:
  assumes "truthy key"
    and "\<not> startswith (headers_get hs (str ''Authorization'') []) (str ''Bearer '')"
  shows "verify_api_key key hs = (Some (strip (headers_get hs (str ''X-API-Key'') [])) = key)"
  using assms x_api_key_same_header [of hs "[]"]
  by (auto simp: verify_api_key_def Let_def truthy_def strip_def)

text \<open>
  C5. The claim starts from "authenticates every request when no secret is configured".
  \<open>verify_api_key\<close> has that branch, but the module never reaches it: an unset (or empty)
  \<open>MCP_API_KEY\<close> is replaced by the default secret \<open>123\<close>, so with no secret configured a
  request without any header is refused with 401 and the code -32001.
\<close>

theorem bearer_check_default_secret_rejects:
  "module_API_KEY None = Some (str ''123'')
   \<and> verify_api_key (module_API_KEY None) [] = False
   \<and> mcp_endpoint (module_API_KEY None) (\<lambda>body. body) [] ()
       = JSONResponse 401 (- 32001) (str ''Unauthorized: Invalid or missing API key'')"
  by (simp add: module_API_KEY_def mcp_endpoint_def verify_api_key_def headers_get_def Let_def
      truthy_def startswith_def str_def)

text \<open>
  C5, amended. \<open>verify_api_key\<close> accepts every request when its secret is empty, which
  the module excludes by its default secret. With a secret: an \<open>Authorization\<close> value
  \<open>Bearer t\<close> (with no further \<open>Bearer \<close> inside \<open>t\<close>) decides alone, whatever the other
  headers say, and is accepted exactly when \<open>t\<close> without surrounding white space is the
  secret; without such a value the \<open>X-API-Key\<close> header decides in the same way, and
  \<open>x-api-key\<close> is the same header, the lookup ignoring case; a request with neither is
  refused. Whenever the check fails, \<open>POST /mcp\<close> answers 401 with the JSON-RPC error
  code -32001 and the body is not dispatched.
\<close>

theorem bearer_check:
  "(\<not> truthy key \<longrightarrow> verify_api_key key hs)
   \<and> truthy (module_API_KEY env)
   \<and> (truthy key \<longrightarrow>
        (\<forall>t. headers_get hs (str ''Authorization'') [] = str ''Bearer '' @ t
              \<and> \<not> sublist (str ''Bearer '') t
              \<longrightarrow> verify_api_key key hs = (Some (strip t) = key))
      \<and> (\<not> startswith (headers_get hs (str ''Authorization'') []) (str ''Bearer '')
              \<longrightarrow> verify_api_key key hs
                    = (Some (strip (headers_get hs (str ''X-API-Key'') [])) = key))
      \<and> headers_get hs (str ''X-API-Key'') [] = headers_get hs (str ''x-api-key'') []
      \<and> (\<not> verify_api_key key hs
              \<longrightarrow> mcp_endpoint key dispatch hs body
                    = JSONResponse 401 (- 32001) (str ''Unauthorized: Invalid or missing API key'')))"
proof -
  have 1: "\<not> truthy key \<longrightarrow> verify_api_key key hs"
    by (simp add: verify_api_key_def)
  have 2: "truthy (module_API_KEY env)"
    by (simp add: module_API_KEY_def truthy_def str_def)
  have 3: "truthy key \<Longrightarrow> \<not> verify_api_key key hs \<Longrightarrow>
             mcp_endpoint key dispatch hs body
               = JSONResponse 401 (- 32001) (str ''Unauthorized: Invalid or missing API key'')"
    by (simp add: mcp_endpoint_def)
  show ?thesis
    using 1 2 3 verify_bearer [of key hs] verify_x_api_key [of key hs]
      x_api_key_same_header [of hs "[]"]
    by blast
qed

theorem bearer_check_witness:
  "truthy (Some (str ''123''))
   \<and> headers_get [(''authorization'', ''Bearer 123''), (''x-api-key'', ''wrong'')]
        (str ''Authorization'') [] = str ''Bearer '' @ str ''123''
   \<and> \<not> sublist (str ''Bearer '') (str ''123'')
   \<and> verify_api_key (Some (str ''123''))
        [(''authorization'', ''Bearer 123''), (''x-api-key'', ''wrong'')]
   \<and> \<not> startswith (headers_get [(''x-api-key'', ''wrong'')] (str ''Authorization'') []) (str ''Bearer '')
   \<and> \<not> verify_api_key (Some (str ''123'')) [(''x-api-key'', ''wrong'')]
   \<and> mcp_endpoint (Some (str ''123'')) (\<lambda>body. body) [(''x-api-key'', ''wrong'')] ()
       = JSONResponse 401 (- 32001) (str ''Unauthorized: Invalid or missing API key'')"
proof -
  let ?k = "Some (str ''123'')"
  let ?hs1 = "[(''authorization'', ''Bearer 123''), (''x-api-key'', ''wrong'')]"
  let ?hs2 = "[(''x-api-key'', ''wrong'')]"
  have k: "truthy ?k" by (simp add: truthy_def str_def)
  have a: "headers_get ?hs1 (str ''Authorization'') [] = str ''Bearer '' @ str ''123''"
    by (simp add: headers_get_def lower_def lower_cp_def decode_latin1_def str_def)
  have n: "\<not> sublist (str ''Bearer '') (str ''123'')"
    by (simp add: str_def sublist_Cons_right)
  have s: "Some (strip (str ''123'')) = ?k"
    by (simp add: strip_def isspace_def str_def)
  have b: "\<not> startswith (headers_get ?hs2 (str ''Authorization'') []) (str ''Bearer '')"
    by (simp add: headers_get_def lower_def lower_cp_def decode_latin1_def str_def startswith_def)
  have x: "Some (strip (headers_get ?hs2 (str ''X-API-Key'') [])) \<noteq> ?k"
    by (simp add: headers_get_def lower_def lower_cp_def decode_latin1_def strip_def isspace_def str_def)
  note t1 = bearer_check [of ?k ?hs1 None "\<lambda>body. body" "()",
      THEN conjunct2, THEN conjunct2, THEN mp, OF k]
  note c1 = t1 [THEN conjunct1, THEN spec, THEN mp, OF conjI, OF a n]
  from c1 s have v1: "verify_api_key ?k ?hs1"
    by simp
  note t2 = bearer_check [of ?k ?hs2 None "\<lambda>body. body" "()",
      THEN conjunct2, THEN conjunct2, THEN mp, OF k]
  note c2 = t2 [THEN conjunct2, THEN conjunct1, THEN mp, OF b]
  from c2 x have v2: "\<not> verify_api_key ?k ?hs2"
    by simp
  note e = t2 [THEN conjunct2, THEN conjunct2, THEN conjunct2, THEN mp, OF v2]
  from k a n v1 b v2 e show ?thesis by simp
qed



section \<open>Token provenance\<close>

lemma known_append: "known trusted es t \<Longrightarrow> known trusted (es @ es') t"
  by (auto simp: known_def)

lemma vouched_append: "vouched trusted es e \<Longrightarrow> vouched trusted (es @ es') e"
  by (auto simp: vouched_def known_append split: option.splits)

lemma provenance_append:
  "provenance trusted before (es @ new) =
     (provenance trusted before es \<and> provenance trusted (before @ es) new)"
  by (induction es arbitrary: before) simp_all

lemma provenance_new:
  "\<forall>e\<in>set new. vouched trusted before e \<Longrightarrow> provenance trusted before new"
proof (induction new arbitrary: before)
  case Nil
  show ?case by simp
next
  case (Cons e new)
  then have "\<forall>e'\<in>set new. vouched trusted (before @ [e]) e'"
    by (simp add: vouched_append)
  with Cons show ?case by simp
qed

lemma sound_step:
  assumes "sound trusted w"
    and "events w' = events w @ new"
    and "\<forall>e\<in>set new. vouched trusted (events w) e"
    and "\<And>t. access_token (session w') = Some t \<Longrightarrow> t \<noteq> [] \<Longrightarrow> known trusted (events w') t"
    and "\<And>path d t. stored w' path = Some (JsonObject d) \<Longrightarrow>
           d (str ''access_token'') = Some (Some t) \<Longrightarrow> t \<noteq> [] \<Longrightarrow> known trusted (events w') t"
  shows "sound trusted w'"
proof -
  have "provenance trusted [] (events w')"
    using assms(1) provenance_new [OF assms(3)]
    by (simp add: assms(2) provenance_append sound_def)
  with assms(4,5) show ?thesis
    unfolding sound_def by blast
qed

lemma sound_session:
  "sound trusted w \<Longrightarrow> access_token (session w) = Some t \<Longrightarrow> t \<noteq> [] \<Longrightarrow>
     known trusted (events w @ new) t"
  by (auto simp: sound_def intro: known_append)

lemma sound_stored:
  "sound trusted w \<Longrightarrow> stored w path = Some (JsonObject d) \<Longrightarrow>
     d (str ''access_token'') = Some (Some t) \<Longrightarrow> t \<noteq> [] \<Longrightarrow> known trusted (events w @ new) t"
  by (auto simp: sound_def intro: known_append)

text \<open>Where the access token of the session comes from, after each of the two calls that
  talk to the token endpoint.\<close>

lemma exchange_token_calls:
  "snd (snd (exchange_token post self code)) = [exchange_request self code]"
  by (simp add: exchange_token_def Let_def split: http_outcome.splits json_body.splits)

lemma exchange_token_source:
  assumes "access_token (fst (snd (exchange_token (\<lambda>req. outcome) self code))) = Some t"
    and "t \<noteq> []"
  shows "access_token self = Some t \<or> issues (Posted req outcome) t"
  using assms
  by (auto simp: exchange_token_def Let_def issues_def dict_get_def
      split: http_outcome.splits json_body.splits if_splits option.splits)

lemma refresh_access_token_calls:
  "snd (snd (refresh_access_token post self)) = [] \<or>
   snd (snd (refresh_access_token post self)) = [refresh_request self]"
  by (simp add: refresh_access_token_def Let_def split: http_outcome.splits json_body.splits)

lemma refresh_access_token_source:
  assumes "access_token (fst (snd (refresh_access_token (\<lambda>req. outcome) self))) = Some t"
    and "t \<noteq> []"
  shows "access_token self = Some t \<or>
         (snd (snd (refresh_access_token (\<lambda>req. outcome) self)) = [refresh_request self]
          \<and> issues (Posted (refresh_request self) outcome) t)"
  using assms
  by (auto simp: refresh_access_token_def Let_def issues_def dict_get_def
      split: http_outcome.splits json_body.splits if_splits option.splits)


lemma carried_posted: "carried (Posted req outcome) = None"
  by (simp add: carried_def)

lemma known_issued: "issues e t \<Longrightarrow> known trusted (es @ [e]) t"
  by (simp add: known_def)

lemma sound_exchange:
  assumes "sound trusted w"
  shows "sound trusted (step w (ExchangeToken code outcome))"
proof -
  define r where "r = exchange_token (\<lambda>req. outcome) (session w) code"
  define req where "req = exchange_request (session w) code"
  define w' where "w' = step w (ExchangeToken code outcome)"
  have calls: "snd (snd r) = [req]"
    unfolding r_def req_def by (rule exchange_token_calls)
  obtain ok self' cs where r: "r = (ok, self', cs)"
    by (cases r) auto
  have w': "w' = w\<lparr>session := fst (snd r), events := events w @ [Posted req outcome]\<rparr>"
    using calls by (simp add: w'_def step_def r_def [symmetric] r)
  have "sound trusted w'"
  proof (rule sound_step [OF assms])
    show "events w' = events w @ [Posted req outcome]" by (simp add: w')
    show "\<forall>e\<in>set [Posted req outcome]. vouched trusted (events w) e"
      by (simp add: vouched_def carried_posted)
  next
    fix t assume t: "access_token (session w') = Some t" "t \<noteq> []"
    then have "access_token (fst (snd r)) = Some t" by (simp add: w')
    then have "access_token (session w) = Some t \<or> issues (Posted req outcome) t"
      unfolding r_def using t(2) by (rule exchange_token_source)
    then show "known trusted (events w') t"
      using sound_session [OF assms _ t(2)] known_issued by (auto simp: w')
  next
    fix path d t
    assume "stored w' path = Some (JsonObject d)" "d (str ''access_token'') = Some (Some t)" "t \<noteq> []"
    then show "known trusted (events w') t"
      using sound_stored [OF assms] by (simp add: w')
  qed
  then show ?thesis by (simp add: w'_def)
qed

lemma sound_refresh:
  assumes "sound trusted w"
  shows "sound trusted (step w (RefreshAccessToken outcome))"
proof -
  define r where "r = refresh_access_token (\<lambda>req. outcome) (session w)"
  define req where "req = refresh_request (session w)"
  define new where "new = map (\<lambda>req. Posted req outcome) (snd (snd r))"
  define w' where "w' = step w (RefreshAccessToken outcome)"
  obtain ok self' cs where r: "r = (ok, self', cs)"
    by (cases r) auto
  have w': "w' = w\<lparr>session := fst (snd r), events := events w @ new\<rparr>"
    by (simp add: w'_def step_def r_def [symmetric] new_def r)
  have "sound trusted w'"
  proof (rule sound_step [OF assms])
    show "events w' = events w @ new" by (simp add: w')
    show "\<forall>e\<in>set new. vouched trusted (events w) e"
      by (auto simp: new_def vouched_def carried_posted)
  next
    fix t assume t: "access_token (session w') = Some t" "t \<noteq> []"
    then have "access_token (fst (snd r)) = Some t" by (simp add: w')
    then have "access_token (session w) = Some t \<or>
         (snd (snd r) = [req] \<and> issues (Posted req outcome) t)"
      unfolding r_def req_def using t(2) by (rule refresh_access_token_source)
    then show "known trusted (events w') t"
    proof
      assume "access_token (session w) = Some t"
      then show ?thesis using sound_session [OF assms _ t(2)] by (simp add: w')
    next
      assume "snd (snd r) = [req] \<and> issues (Posted req outcome) t"
      then show ?thesis using known_issued by (simp add: w' new_def)
    qed
  next
    fix path d t
    assume "stored w' path = Some (JsonObject d)" "d (str ''access_token'') = Some (Some t)" "t \<noteq> []"
    then show "known trusted (events w') t"
      using sound_stored [OF assms] by (simp add: w')
  qed
  then show ?thesis by (simp add: w'_def)
qed

lemma config_of_access_token:
  "config_of self (str ''access_token'') = Some (access_token self)"
  by (simp add: config_of_def str_def)

lemma sound_save:
  assumes "sound trusted w"
  shows "sound trusted (step w (SaveTokens path writable))"
proof (cases "truthy (access_token (session w)) \<and> writable")
  case False
  then have "step w (SaveTokens path writable) = w"
    by (auto simp: step_def save_tokens_def)
  then show ?thesis using assms by simp
next
  case True
  then obtain tok where tok: "access_token (session w) = Some tok" "tok \<noteq> []"
    by (auto simp: truthy_def split: option.splits)
  define w' where "w' = step w (SaveTokens path writable)"
  have w': "w' = w\<lparr>stored := (stored w)(path \<mapsto> JsonObject (config_of (session w))),
                    events := events w @ [Saved path (config_of (session w))]\<rparr>"
    using True by (simp add: w'_def step_def save_tokens_def)
  have saved: "carried (Saved path (config_of (session w))) = Some tok"
    using tok by (simp add: carried_def dict_get_def config_of_access_token truthy_def)
  have "sound trusted w'"
  proof (rule sound_step [OF assms])
    show "events w' = events w @ [Saved path (config_of (session w))]" by (simp add: w')
    show "\<forall>e\<in>set [Saved path (config_of (session w))]. vouched trusted (events w) e"
      using sound_session [OF assms tok, of "[]"] by (simp add: vouched_def saved)
  next
    fix t assume "access_token (session w') = Some t" "t \<noteq> []"
    then show "known trusted (events w') t"
      using sound_session [OF assms] by (simp add: w')
  next
    fix p d t
    assume a: "stored w' p = Some (JsonObject d)" "d (str ''access_token'') = Some (Some t)" "t \<noteq> []"
    show "known trusted (events w') t"
    proof (cases "p = path")
      case True
      with a have "d = config_of (session w)"
        by (simp add: w')
      with a(2) have "access_token (session w) = Some t"
        by (simp add: config_of_access_token)
      then show ?thesis using sound_session [OF assms _ a(3)] by (simp add: w')
    next
      case False
      with a show ?thesis using sound_stored [OF assms] by (simp add: w')
    qed
  qed
  then show ?thesis by (simp add: w'_def)
qed

lemma load_tokens_source:
  assumes "access_token (snd (load_tokens self fs path)) = Some t"
  shows "access_token self = Some t \<or>
         (\<exists>d. fs path = Some (JsonObject d) \<and> d (str ''access_token'') = Some (Some t))"
  using assms
  by (auto simp: load_tokens_def Let_def dict_get_def split: option.splits json_body.splits)

lemma sound_load:
  assumes "sound trusted w"
  shows "sound trusted (step w (LoadTokens path))"
proof -
  define w' where "w' = step w (LoadTokens path)"
  have w': "w' = w\<lparr>session := snd (load_tokens (session w) (stored w) path)\<rparr>"
    by (simp add: w'_def step_def)
  have "sound trusted w'"
  proof (rule sound_step [OF assms])
    show "events w' = events w @ []" by (simp add: w')
    show "\<forall>e\<in>set []. vouched trusted (events w) e" by simp
  next
    fix t assume t: "access_token (session w') = Some t" "t \<noteq> []"
    then have "access_token (session w) = Some t \<or>
         (\<exists>d. stored w path = Some (JsonObject d) \<and> d (str ''access_token'') = Some (Some t))"
      using load_tokens_source [of "session w" "stored w" path t] by (simp add: w')
    then show "known trusted (events w') t"
      using sound_session [OF assms _ t(2), of "[]"] sound_stored [OF assms _ _ t(2), of path _ "[]"]
      by (auto simp: w')
  next
    fix p d t
    assume "stored w' p = Some (JsonObject d)" "d (str ''access_token'') = Some (Some t)" "t \<noteq> []"
    then show "known trusted (events w') t"
      using sound_stored [OF assms, of p d t "[]"] by (simp add: w')
  qed
  then show ?thesis by (simp add: w'_def)
qed

lemma carried_headers:
  "get_headers self = Inr hs \<Longrightarrow>
     \<exists>tok. access_token self = Some tok \<and> tok \<noteq> [] \<and> carried (Emitted hs) = Some tok"
  by (auto simp: get_headers_def carried_def startswith_def str_def
      split: option.splits if_splits)

lemma sound_get_headers:
  assumes "sound trusted w"
  shows "sound trusted (step w GetHeaders)"
proof (cases "get_headers (session w)")
  case (Inl e)
  then show ?thesis using assms by (simp add: step_def)
next
  case (Inr hs)
  then obtain tok where tok: "access_token (session w) = Some tok" "tok \<noteq> []"
    and c: "carried (Emitted hs) = Some tok"
    using carried_headers by blast
  define w' where "w' = step w GetHeaders"
  have w': "w' = w\<lparr>events := events w @ [Emitted hs]\<rparr>"
    using Inr by (simp add: w'_def step_def)
  have "sound trusted w'"
  proof (rule sound_step [OF assms])
    show "events w' = events w @ [Emitted hs]" by (simp add: w')
    show "\<forall>e\<in>set [Emitted hs]. vouched trusted (events w) e"
      using sound_session [OF assms tok, of "[]"] by (simp add: vouched_def c)
  next
    fix t assume "access_token (session w') = Some t" "t \<noteq> []"
    then show "known trusted (events w') t"
      using sound_session [OF assms] by (simp add: w')
  next
    fix p d t
    assume "stored w' p = Some (JsonObject d)" "d (str ''access_token'') = Some (Some t)" "t \<noteq> []"
    then show "known trusted (events w') t"
      using sound_stored [OF assms] by (simp add: w')
  qed
  then show ?thesis by (simp add: w'_def)
qed

lemma sound_write_env:
  assumes "sound trusted w"
  shows "sound trusted (step w (WriteEnvTokens path))"
proof -
  define e where "e = EnvWritten path (access_token (session w)) (refresh_token (session w))"
  define w' where "w' = step w (WriteEnvTokens path)"
  have w': "w' = w\<lparr>stored := (stored w)(path \<mapsto> NotJson), events := events w @ [e]\<rparr>"
    by (simp add: w'_def step_def e_def)
  have "sound trusted w'"
  proof (rule sound_step [OF assms])
    show "events w' = events w @ [e]" by (simp add: w')
    show "\<forall>e\<in>set [e]. vouched trusted (events w) e"
      using sound_session [OF assms, of _ "[]"]
      by (auto simp: vouched_def e_def carried_def truthy_def split: option.splits)
  next
    fix t assume "access_token (session w') = Some t" "t \<noteq> []"
    then show "known trusted (events w') t"
      using sound_session [OF assms] by (simp add: w')
  next
    fix p d t
    assume "stored w' p = Some (JsonObject d)" "d (str ''access_token'') = Some (Some t)" "t \<noteq> []"
    then show "known trusted (events w') t"
      using sound_stored [OF assms, of p d t] by (cases "p = path") (simp_all add: w')
  qed
  then show ?thesis by (simp add: w'_def)
qed

lemma authorize_cases:
  "authorize parse_query requests post self previous = (False, self, []) \<or>
   (\<exists>code. authorize parse_query requests post self previous = exchange_token post self code)"
  by (auto simp: authorize_def split: option.splits)

lemma sound_authorize:
  assumes "sound trusted w"
  shows "sound trusted (step w (Authorize parse_query requests outcome))"
proof -
  have "step w (Authorize parse_query requests outcome) = w \<or>
        (\<exists>code. step w (Authorize parse_query requests outcome)
                 = step w (ExchangeToken code outcome))"
    using authorize_cases [of parse_query requests "\<lambda>req. outcome" "session w" None]
    by (auto simp: step_def)
  then show ?thesis
    using assms sound_exchange [OF assms] by auto
qed

lemma sound_run: "sound trusted w \<Longrightarrow> sound trusted (run w ops)"
proof (induction ops arbitrary: w)
  case Nil
  then show ?case by (simp add: run_def)
next
  case (Cons op ops)
  have "sound trusted (step w op)"
    using Cons.prems
    by (cases op) (simp_all add: sound_authorize sound_exchange sound_refresh sound_save
        sound_load sound_get_headers sound_write_env)
  then have "sound trusted (run (step w op) ops)" by (rule Cons.IH)
  then show ?case by (simp add: run_def)
qed

lemma sound_start:
  "access_token self = None \<Longrightarrow> sound (preloaded fs) (start self fs)"
  by (auto simp: sound_def start_def known_def preloaded_def)

text \<open>
  C2, amended. For every sequence of \<open>authorize\<close>, \<open>exchange_token\<close>, \<open>refresh_access_token\<close>,
  \<open>save_tokens\<close>, \<open>load_tokens\<close>, \<open>get_headers\<close> and writes of the \<open>.env\<close> file on a new session,
  whatever the network answers: a token handed out in the \<open>Authorization\<close> header or written to a file
  was issued before by an HTTP call answered without an error status with that non-empty
  \<open>access_token\<close>, or it is an access token of a configuration file that was stored when
  the session began. With no such file, the claim holds as it stands.
\<close>

theorem token_provenance:
  "access_token self = None \<Longrightarrow>
     provenance (preloaded fs) [] (events (run (start self fs) ops))"
  using sound_run [OF sound_start] by (simp add: sound_def)


lemmas session_eval = run_def start_def step_def exchange_token_def refresh_access_token_def
  save_tokens_def load_tokens_def get_headers_def config_of_def carried_def vouched_def known_def
  issues_def exchange_request_def refresh_request_def raise_for_status_def dict_get_def
  dict_get_default_def truthy_def py_or_def startswith_def fresh_client_def init_client_def
  Let_def str_def

text \<open>
  C2. The claim allows no token that did not come from a successful response. A token
  that \<open>load_tokens\<close> reads from a configuration file is one: with the file
  \<open>{"access_token": "forged"}\<close> in place, \<open>load_tokens\<close> followed by \<open>get_headers\<close> hands out
  \<open>Bearer forged\<close>, and no HTTP call was ever made.
\<close>

theorem forged_stored_token_is_emitted:
  "map carried
     (events (run (start fresh_client
                     [str ''oauth_config.json'' \<mapsto>
                        JsonObject [str ''access_token'' \<mapsto> Some (str ''forged'')]])
                [LoadTokens (str ''oauth_config.json''), GetHeaders]))
     = [Some (str ''forged'')]
   \<and> \<not> provenance (\<lambda>t. False) []
         (events (run (start fresh_client
                     [str ''oauth_config.json'' \<mapsto>
                        JsonObject [str ''access_token'' \<mapsto> Some (str ''forged'')]])
                [LoadTokens (str ''oauth_config.json''), GetHeaders]))"
  by (simp add: session_eval)

theorem token_provenance_witness:
  "access_token fresh_client = None
   \<and> map carried
       (events (run (start fresh_client Map.empty)
          [ExchangeToken (str ''code1'')
             (Response 200 (JsonObject [str ''access_token'' \<mapsto> Some (str ''tok'')])),
           SaveTokens (str ''oauth_config.json'') True,
           LoadTokens (str ''oauth_config.json''),
           GetHeaders]))
       = [None, Some (str ''tok''), Some (str ''tok'')]
   \<and> provenance (preloaded Map.empty) []
       (events (run (start fresh_client Map.empty)
          [ExchangeToken (str ''code1'')
             (Response 200 (JsonObject [str ''access_token'' \<mapsto> Some (str ''tok'')])),
           SaveTokens (str ''oauth_config.json'') True,
           LoadTokens (str ''oauth_config.json''),
           GetHeaders]))"
proof -
  have 1: "access_token fresh_client = None"
    by (simp add: fresh_client_def init_client_def)
  have 2: "map carried
       (events (run (start fresh_client Map.empty)
          [ExchangeToken (str ''code1'')
             (Response 200 (JsonObject [str ''access_token'' \<mapsto> Some (str ''tok'')])),
           SaveTokens (str ''oauth_config.json'') True,
           LoadTokens (str ''oauth_config.json''),
           GetHeaders]))
       = [None, Some (str ''tok''), Some (str ''tok'')]"
    by (simp add: session_eval)
  from 1 2 token_provenance [OF 1, of Map.empty] show ?thesis
    by simp
qed


end
